theory Spec2Isabelle
  imports Complex_Main
begin

section \<open>The trade aggregation and correlation engine of okx.c\<close>

text \<open>
  A shallow embedding of \<^verbatim>\<open>src/okx.c\<close>. Conventions of the model:
  \<^item> a C \<^verbatim>\<open>double\<close> is a real number: rounding, overflow and NaN operands are left
    out. The only NaN is then the \<^verbatim>\<open>NAN\<close> that \<^verbatim>\<open>pearson_corr_vector\<close> returns; it
    is the value \<open>None\<close> of \<open>real option\<close>, and \<^verbatim>\<open>isnan\<close> is the test for \<open>None\<close>. What
    \<^verbatim>\<open>pearson_corr_vector\<close> returns depends on the rounding, so this function has a second
    model, \<open>pearson_corr_vector_d\<close>, in IEEE 754 binary64 arithmetic, and its values are
    stated of that model;
  \<^item> a fixed-size C array is a function from the index to the element, so that the slots
    beyond the count keep their old contents as they do in C. The arrays have static
    storage, so every slot starts zeroed;
  \<^item> a NUL-terminated C string is a \<open>string\<close> (the characters before the NUL);
  \<^item> a pointer into the global table \<^verbatim>\<open>instruments\<close> is the index of the slot, the
    null pointer is \<open>None\<close>;
  \<^item> a log file is the list of the records written to it (oldest first), \<open>None\<close> when
    \<^verbatim>\<open>fopen\<close> failed and the \<^verbatim>\<open>FILE *\<close> is null. Whether an \<^verbatim>\<open>fopen\<close> succeeds is
    the environment's choice: the model takes it as the parameter \<open>fopen_ok\<close>;
  \<^item> the clock is the environment's as well: every \<^verbatim>\<open>clock_gettime\<close> reading is a
    parameter of the function that takes it;
  \<^item> the counters \<^verbatim>\<open>trade_count\<close>, \<^verbatim>\<open>ma_count\<close> and \<^verbatim>\<open>num_instruments\<close> are C ints that
    start at 0 and never leave the range \<open>0..100000\<close>: they are natural numbers;
  \<^item> the websocket transport, the JSON decoding, the directories, \<^verbatim>\<open>stdout\<close> and the CPU
    monitor are outside the model.
  The field \<^verbatim>\<open>timestamp\<close> of \<^verbatim>\<open>ma_entry_t\<close> is \<open>ma_timestamp\<close>, the field \<^verbatim>\<open>instrument\<close> of
  \<^verbatim>\<open>corr_data_t\<close> is \<open>cd_instrument\<close> and the field \<^verbatim>\<open>total\<close> of \<^verbatim>\<open>corr_thread_arg_t\<close> is
  \<open>total_n\<close>, since a name stands for one constant only.
\<close>

subsection \<open>Configuration constants\<close>

definition TRADE_BUFFER_SIZE :: nat where
  "TRADE_BUFFER_SIZE = 100000"

definition MA_HISTORY_SIZE :: nat where
  "MA_HISTORY_SIZE = 8"

definition FIFTEEN_MINUTES :: real where
  "FIFTEEN_MINUTES = 15 * 60"

definition MAX_INSTRUMENTS :: nat where
  "MAX_INSTRUMENTS = 8"

subsection \<open>Data structures\<close>

record trade_t =
  timestamp :: real
  price :: real
  volume :: real
  delay :: real

record ma_entry_t =
  ma_timestamp :: real
  moving_avg :: real
  total_volume :: real
  avg_delay :: real
  avg_scheduled_delay :: real

text \<open>
  The records of the three per-instrument log files. A transaction line is
  (time, price, volume, delay); the delay is \<open>None\<close> when the C expression that is
  printed reads outside the array \<^verbatim>\<open>trades\<close>, where the model does not say what is
  read. A moving-average line is (time, moving average, total volume, average delay), a
  correlation line is (time, peer symbol, correlation, time of the contributing entry).
\<close>

type_synonym trans_line = "real \<times> real \<times> real \<times> real option"
type_synonym ma_line = "real \<times> real \<times> real \<times> real"
type_synonym corr_line = "real \<times> string \<times> real \<times> real"

record moving_avg_t =
  instrument :: string
  trades :: "nat \<Rightarrow> trade_t"
  trade_count :: nat
  ma_history :: "nat \<Rightarrow> ma_entry_t"
  ma_count :: nat
  max_corr :: real
  max_corr_symbol :: string
  max_corr_time :: real
  max_corr_ma_time :: real
  trans_file :: "trans_line list option"
  ma_file :: "ma_line list option"
  corr_file :: "corr_line list option"

text \<open>
  The global state: the table \<^verbatim>\<open>instruments\<close>, \<^verbatim>\<open>num_instruments\<close>, and the lines
  written to \<^verbatim>\<open>stderr\<close>.
\<close>

record state =
  instruments :: "nat \<Rightarrow> moving_avg_t"
  num_instruments :: nat
  stderr_out :: "string list"

definition zero_trade :: trade_t where
  "zero_trade = \<lparr>timestamp = 0, price = 0, volume = 0, delay = 0\<rparr>"

definition zero_ma :: ma_entry_t where
  "zero_ma = \<lparr>ma_timestamp = 0, moving_avg = 0, total_volume = 0, avg_delay = 0,
     avg_scheduled_delay = 0\<rparr>"

definition zero_instrument :: moving_avg_t where
  "zero_instrument = \<lparr>instrument = [], trades = (\<lambda>_. zero_trade), trade_count = 0,
     ma_history = (\<lambda>_. zero_ma), ma_count = 0, max_corr = 0, max_corr_symbol = [],
     max_corr_time = 0, max_corr_ma_time = 0, trans_file = None, ma_file = None,
     corr_file = None\<rparr>"

text \<open>The state at program start: static storage is zeroed.\<close>

definition init_state :: state where
  "init_state = \<lparr>instruments = (\<lambda>_. zero_instrument), num_instruments = 0, stderr_out = []\<rparr>"

subsection \<open>get_instrument\<close>

text \<open>
  \<^verbatim>\<open>fopen(filename, "w")\<close> followed by the header line: an empty list of records when the
  environment lets the file open, the null \<^verbatim>\<open>FILE *\<close> otherwise.
\<close>

definition fopen_w :: "(string \<Rightarrow> bool) \<Rightarrow> string \<Rightarrow> 'a list option" where
  "fopen_w fopen_ok filename = (if fopen_ok filename then Some [] else None)"

text \<open>
  The lookup loop of \<^verbatim>\<open>get_instrument\<close>: the first index below \<^verbatim>\<open>num_instruments\<close>
  whose stored name compares equal (\<^verbatim>\<open>strcmp\<close>) to the full argument.
\<close>

definition lookup_instrument :: "state \<Rightarrow> string \<Rightarrow> nat option" where
  "lookup_instrument s name =
     find (\<lambda>i. instrument (instruments s i) = name) [0..<num_instruments s]"

text \<open>
  \<^verbatim>\<open>get_instrument\<close> returns the slot found; otherwise, while the table has room, it
  fills the next slot (the name is copied with \<^verbatim>\<open>strncpy\<close> of at most 15 characters,
  \<^verbatim>\<open>trades\<close>, \<^verbatim>\<open>ma_history\<close> and \<^verbatim>\<open>max_corr_ma_time\<close> are left as they are) and returns
  it; otherwise it writes to \<^verbatim>\<open>stderr\<close> and returns the null pointer.
\<close>

definition get_instrument :: "(string \<Rightarrow> bool) \<Rightarrow> string \<Rightarrow> state \<Rightarrow> nat option \<times> state" where
  "get_instrument fopen_ok name s =
     (case lookup_instrument s name of
        Some i \<Rightarrow> (Some i, s)
      | None \<Rightarrow>
          if num_instruments s < MAX_INSTRUMENTS then
            let n = num_instruments s;
                dirpath = take 127 (''data/'' @ name);
                inst = (instruments s n)\<lparr>
                  instrument := take 15 name,
                  trade_count := 0,
                  ma_count := 0,
                  max_corr := - 2,
                  max_corr_symbol := ''N/A'',
                  max_corr_time := 0,
                  trans_file := fopen_w fopen_ok (dirpath @ ''/transactions.csv''),
                  ma_file := fopen_w fopen_ok (dirpath @ ''/moving_average.csv''),
                  corr_file := fopen_w fopen_ok (dirpath @ ''/correlation.csv'')\<rparr>
            in (Some n, s\<lparr>instruments := (instruments s)(n := inst), num_instruments := n + 1\<rparr>)
          else (None, s\<lparr>stderr_out := stderr_out s @ [''Too many instruments!'']\<rparr>))"

subsection \<open>save_trade\<close>

datatype error = NullPointerDereference

text \<open>
  Reading \<^verbatim>\<open>entry->trades[i].delay\<close>: inside the array it is the slot's field, at
  \<^verbatim>\<open>TRADE_BUFFER_SIZE\<close> and beyond the read leaves the array.
\<close>

definition read_delay :: "moving_avg_t \<Rightarrow> nat \<Rightarrow> real option" where
  "read_delay entry i = (if i < TRADE_BUFFER_SIZE then Some (delay (trades entry i)) else None)"

text \<open>
  The body of the loop of \<^verbatim>\<open>save_trade\<close> for one element of the \<^verbatim>\<open>data\<close> array whose
  three fields are strings: \<open>inst\<close>, \<open>price\<close> and \<open>vol\<close> are the decoded fields, \<open>now\<close> is
  the clock read before the lock is taken and \<open>current\<close> the clock read after the three
  fields of the slot are written. The transaction line is written after
  \<^verbatim>\<open>entry->trade_count++\<close> and prints \<^verbatim>\<open>entry->trades[entry->trade_count].delay\<close>:
  \<open>append_trade\<close> is the body of the \<^verbatim>\<open>if\<close> that guards the append. The \<^verbatim>\<open>printf\<close> after
  the unlock evaluates the same expression outside the test for a null \<^verbatim>\<open>entry\<close>: with a
  null \<^verbatim>\<open>entry\<close> it dereferences the null pointer, which ends the run. With an \<^verbatim>\<open>entry\<close>
  that is not null the \<^verbatim>\<open>printf\<close> only reads a slot (the one past the array when the window
  is full) and prints; what goes to \<^verbatim>\<open>stdout\<close> is not part of the model.
\<close>

definition append_trade :: "moving_avg_t \<Rightarrow> real \<Rightarrow> real \<Rightarrow> real \<Rightarrow> real \<Rightarrow> moving_avg_t" where
  "append_trade entry price_v vol now current =
     (let n = trade_count entry;
          entry1 = entry\<lparr>
            trades := (trades entry)(n :=
              \<lparr>timestamp = now, price = price_v, volume = vol, delay = current - now\<rparr>),
            trade_count := n + 1\<rparr>
      in case trans_file entry1 of
           None \<Rightarrow> entry1
         | Some f \<Rightarrow> entry1\<lparr>trans_file :=
             Some (f @ [(now, price_v, vol, read_delay entry1 (trade_count entry1))])\<rparr>)"

definition save_trade_item ::
  "(string \<Rightarrow> bool) \<Rightarrow> string \<Rightarrow> real \<Rightarrow> real \<Rightarrow> real \<Rightarrow> real \<Rightarrow> state \<Rightarrow> error + state" where
  "save_trade_item fopen_ok inst price_v vol now current s =
     (case get_instrument fopen_ok inst s of
        (None, s1) \<Rightarrow> Inl NullPointerDereference
      | (Some i, s1) \<Rightarrow>
          if trade_count (instruments s1 i) < TRADE_BUFFER_SIZE then
            Inr (s1\<lparr>instruments := (instruments s1)(i :=
                   append_trade (instruments s1 i) price_v vol now current)\<rparr>)
          else Inr s1)"

text \<open>The trade window of an instrument: the first \<^verbatim>\<open>trade_count\<close> slots of \<^verbatim>\<open>trades\<close>.\<close>

definition trade_window :: "moving_avg_t \<Rightarrow> trade_t list" where
  "trade_window entry = map (trades entry) [0..<trade_count entry]"

text \<open>
  One element of the \<^verbatim>\<open>data\<close> array of a message, with the two clock readings its
  processing takes: the instrument id, the price and the volume (after \<^verbatim>\<open>atof\<close>), the
  clock before the lock (\<open>ev_now\<close>) and the clock inside the append (\<open>ev_current\<close>).
\<close>

record trade_event =
  ev_inst :: string
  ev_price :: real
  ev_vol :: real
  ev_now :: real
  ev_current :: real

text \<open>
  \<^verbatim>\<open>save_trade\<close> on a decoded message: the list of the elements of its \<^verbatim>\<open>data\<close> array,
  \<open>None\<close> for an element that lacks one of the three string fields and is skipped. A
  message that does not parse, or has no \<^verbatim>\<open>data\<close> array, is the empty list. A null
  dereference ends the run.
\<close>

fun save_trade :: "(string \<Rightarrow> bool) \<Rightarrow> trade_event option list \<Rightarrow> state \<Rightarrow> error + state" where
  "save_trade fopen_ok [] s = Inr s"
| "save_trade fopen_ok (None # es) s = save_trade fopen_ok es s"
| "save_trade fopen_ok (Some e # es) s =
     (case save_trade_item fopen_ok (ev_inst e) (ev_price e) (ev_vol e) (ev_now e)
             (ev_current e) s of
        Inl err \<Rightarrow> Inl err
      | Inr s' \<Rightarrow> save_trade fopen_ok es s')"

subsection \<open>pearson_corr_vector\<close>

text \<open>
  The two vectors are pointers to arrays of doubles: functions from the index to the
  value. The two \<^verbatim>\<open>for\<close> loops run over \<open>0..<n\<close>; their accumulators are the tuples
  (\<^verbatim>\<open>sum1\<close>, \<^verbatim>\<open>sum2\<close>) and (\<^verbatim>\<open>num\<close>, \<^verbatim>\<open>den1\<close>, \<^verbatim>\<open>den2\<close>).
\<close>

definition pearson_sums :: "(nat \<Rightarrow> real) \<Rightarrow> (nat \<Rightarrow> real) \<Rightarrow> nat \<Rightarrow> real \<times> real" where
  "pearson_sums v1 v2 n =
     fold (\<lambda>i (sum1, sum2). (sum1 + v1 i, sum2 + v2 i)) [0..<n] (0, 0)"

definition pearson_products ::
  "(nat \<Rightarrow> real) \<Rightarrow> (nat \<Rightarrow> real) \<Rightarrow> real \<Rightarrow> real \<Rightarrow> nat \<Rightarrow> real \<times> real \<times> real" where
  "pearson_products v1 v2 mean1 mean2 n =
     fold (\<lambda>i (num, den1, den2).
             let d1 = v1 i - mean1; d2 = v2 i - mean2
             in (num + d1 * d2, den1 + d1 * d1, den2 + d2 * d2))
       [0..<n] (0, 0, 0)"

definition pearson_corr_vector :: "(nat \<Rightarrow> real) \<Rightarrow> (nat \<Rightarrow> real) \<Rightarrow> int \<Rightarrow> real option" where
  "pearson_corr_vector v1 v2 n =
     (if n < 2 then None
      else
        let (sum1, sum2) = pearson_sums v1 v2 (nat n);
            mean1 = sum1 / of_int n;
            mean2 = sum2 / of_int n;
            (num, den1, den2) = pearson_products v1 v2 mean1 mean2 (nat n)
        in if den1 = 0 \<or> den2 = 0 then None else Some (num / sqrt (den1 * den2)))"

subsection \<open>pearson_corr_vector in double arithmetic\<close>

text \<open>
  The values of IEEE 754 binary64: the NaN, the two infinities and the finite values. A
  finite value is the real number it stands for; the sign of a zero is not kept (the only
  divisor of \<^verbatim>\<open>pearson_corr_vector\<close> that can be zero is a square root, whose zero is
  positive, and so is the zero of \<open>ddiv\<close>).
\<close>

datatype double = NaN | PInf | NInf | Fin real

text \<open>
  Rounding to nearest, ties to even. \<open>pow2 e\<close> is \<open>2\<close> to the power \<open>e\<close> and \<open>ilog2 x\<close> the
  exponent of the binade of \<open>x\<close>. The spacing of the doubles around \<open>x\<close> is
  \<open>pow2 (ulp_exp x)\<close>: 52 binary places below the binade, and never below the spacing
  \<open>pow2 (- 1074)\<close> of the subnormal numbers. \<open>rd x\<close> is the multiple of that spacing nearest
  to \<open>x\<close>, the even multiple of two that are equally near. A result that reaches
  \<open>pow2 1024\<close> overflows to an infinity.
\<close>

definition pow2 :: "int \<Rightarrow> real" where
  "pow2 e = (if 0 \<le> e then 2 ^ nat e else 1 / 2 ^ nat (- e))"

definition ilog2 :: "real \<Rightarrow> int" where
  "ilog2 x = \<lfloor>log 2 \<bar>x\<bar>\<rfloor>"

definition round_even :: "real \<Rightarrow> int" where
  "round_even y =
     (let f = \<lfloor>y\<rfloor>; d = y - of_int f
      in if d < 1 / 2 then f else if d > 1 / 2 then f + 1 else if even f then f else f + 1)"

definition ulp_exp :: "real \<Rightarrow> int" where
  "ulp_exp x = max (ilog2 x) (- 1022) - 52"

definition rd :: "real \<Rightarrow> real" where
  "rd x = (if x = 0 then 0 else of_int (round_even (x / pow2 (ulp_exp x))) * pow2 (ulp_exp x))"

definition to_double :: "real \<Rightarrow> double" where
  "to_double x =
     (let y = rd x
      in if pow2 1024 \<le> y then PInf else if y \<le> - pow2 1024 then NInf else Fin y)"












subsection \<open>compute_corr_thread\<close>

record corr_data_t =
  global_index :: nat
  cd_instrument :: string
  ma :: "nat \<Rightarrow> ma_entry_t"

record corr_thread_arg_t =
  index :: nat
  total_n :: nat
  data :: "nat \<Rightarrow> corr_data_t"
  current_time :: real

text \<open>The local variables of \<^verbatim>\<open>compute_corr_thread\<close> that live across the loop over \<open>j\<close>.\<close>

record corr_locals =
  l_max_corr :: real
  l_max_sym :: string
  l_max_ma_time :: real
  l_max_ma_index :: int

definition corr_locals_init :: corr_locals where
  "corr_locals_init =
     \<lparr>l_max_corr = - 2, l_max_sym = ''N/A'', l_max_ma_time = 0, l_max_ma_index = - 1\<rparr>"

text \<open>The moving-average values of snapshot entry \<open>j\<close>: the array \<^verbatim>\<open>ma1\<close> or \<^verbatim>\<open>ma2\<close>.\<close>

definition ma_values :: "corr_thread_arg_t \<Rightarrow> nat \<Rightarrow> nat \<Rightarrow> real" where
  "ma_values ct j = (\<lambda>k. moving_avg (ma (data ct j) k))"

text \<open>The correlation the thread of entry \<^verbatim>\<open>idx\<close> computes for its peer \<open>j\<close>.\<close>

definition peer_corr :: "corr_thread_arg_t \<Rightarrow> nat \<Rightarrow> real option" where
  "peer_corr ct j =
     pearson_corr_vector (ma_values ct (index ct)) (ma_values ct j) (int MA_HISTORY_SIZE)"

text \<open>
  The search for the entry with the largest absolute product of deviations: the
  accumulator is (\<^verbatim>\<open>max_contrib\<close>, \<^verbatim>\<open>max_ma_index\<close>).
\<close>

definition max_contrib_index ::
  "(nat \<Rightarrow> real) \<Rightarrow> (nat \<Rightarrow> real) \<Rightarrow> real \<Rightarrow> real \<Rightarrow> int \<Rightarrow> real \<times> int" where
  "max_contrib_index ma1 ma2 mean1 mean2 max_ma_index =
     fold (\<lambda>k (max_contrib, mi).
             let contrib = \<bar>(ma1 k - mean1) * (ma2 k - mean2)\<bar>
             in if contrib > max_contrib then (contrib, int k) else (max_contrib, mi))
       [0..<MA_HISTORY_SIZE] (- 1, max_ma_index)"

text \<open>One iteration of the loop over \<open>j\<close>.\<close>

definition corr_step :: "corr_thread_arg_t \<Rightarrow> nat \<Rightarrow> corr_locals \<Rightarrow> corr_locals" where
  "corr_step ct j l =
     (if j = index ct then l
      else
        let ma1 = ma_values ct (index ct);
            ma2 = ma_values ct j
        in case pearson_corr_vector ma1 ma2 (int MA_HISTORY_SIZE) of
             None \<Rightarrow> l
           | Some corr \<Rightarrow>
               if corr > l_max_corr l then
                 let mean1 = fold (\<lambda>k m. m + ma1 k) [0..<MA_HISTORY_SIZE] 0
                               / real MA_HISTORY_SIZE;
                     mean2 = fold (\<lambda>k m. m + ma2 k) [0..<MA_HISTORY_SIZE] 0
                               / real MA_HISTORY_SIZE;
                     (max_contrib, mi) =
                        max_contrib_index ma1 ma2 mean1 mean2 (l_max_ma_index l)
                 in \<lparr>l_max_corr = corr,
                     l_max_sym = take 15 (cd_instrument (data ct j)),
                     l_max_ma_time =
                       (if mi \<noteq> - 1 then ma_timestamp (ma (data ct (index ct)) (nat mi))
                        else l_max_ma_time l),
                     l_max_ma_index = mi\<rparr>
               else l)"

definition corr_loop :: "corr_thread_arg_t \<Rightarrow> corr_locals" where
  "corr_loop ct = fold (corr_step ct) [0..<total_n ct] corr_locals_init"

text \<open>
  The thread function: the loop, then the write-back into the global slot of the
  snapshot entry and the line in the correlation file. Each thread of a cycle reads the
  snapshot only and writes its own slot under the mutex, so a thread is a function of the
  state.
\<close>

definition compute_corr_thread :: "corr_thread_arg_t \<Rightarrow> state \<Rightarrow> state" where
  "compute_corr_thread ct s =
     (let l = corr_loop ct;
          global_idx = global_index (data ct (index ct));
          inst = (instruments s global_idx)\<lparr>
            max_corr_symbol := take 15 (l_max_sym l),
            max_corr := l_max_corr l,
            max_corr_time := current_time ct,
            max_corr_ma_time := l_max_ma_time l\<rparr>;
          inst' = (case corr_file inst of
              None \<Rightarrow> inst
            | Some f \<Rightarrow> inst\<lparr>corr_file :=
                Some (f @ [(current_time ct, max_corr_symbol inst, max_corr inst,
                            l_max_ma_time l)])\<rparr>)
      in s\<lparr>instruments := (instruments s)(global_idx := inst')\<rparr>)"

subsection \<open>compute_moving_avg_and_volume\<close>

text \<open>The local variables of \<^verbatim>\<open>compute_moving_avg_and_volume\<close>.\<close>

record mavg_locals =
  sum_price :: real
  total_vol :: real
  processing_delay_sum :: real
  count_l :: nat
  new_trade_count :: nat
  temp :: "nat \<Rightarrow> trade_t"

definition mavg_step :: "moving_avg_t \<Rightarrow> real \<Rightarrow> nat \<Rightarrow> mavg_locals \<Rightarrow> mavg_locals" where
  "mavg_step entry now i l =
     (if timestamp (trades entry i) \<ge> now - FIFTEEN_MINUTES then
        l\<lparr>sum_price := sum_price l + price (trades entry i),
          total_vol := total_vol l + volume (trades entry i),
          processing_delay_sum := processing_delay_sum l + delay (trades entry i),
          temp := (temp l)(new_trade_count l := trades entry i),
          new_trade_count := new_trade_count l + 1,
          count_l := count_l l + 1\<rparr>
      else l)"

text \<open>
  \<open>temp0\<close> is what the stack array \<^verbatim>\<open>temp\<close> holds on entry, \<open>ma_out0\<close> what \<^verbatim>\<open>*ma_out\<close>
  holds (the field \<^verbatim>\<open>avg_scheduled_delay\<close> is never written). \<^verbatim>\<open>memcpy\<close> copies the
  first \<^verbatim>\<open>new_trade_count\<close> slots of \<^verbatim>\<open>temp\<close> over the front of \<^verbatim>\<open>trades\<close>.
\<close>

definition mavg_loop :: "moving_avg_t \<Rightarrow> real \<Rightarrow> (nat \<Rightarrow> trade_t) \<Rightarrow> mavg_locals" where
  "mavg_loop entry now temp0 =
     fold (mavg_step entry now) [0..<trade_count entry]
       \<lparr>sum_price = 0, total_vol = 0, processing_delay_sum = 0, count_l = 0,
        new_trade_count = 0, temp = temp0\<rparr>"

definition compute_moving_avg_and_volume ::
  "(nat \<Rightarrow> trade_t) \<Rightarrow> moving_avg_t \<Rightarrow> real \<Rightarrow> ma_entry_t \<Rightarrow> moving_avg_t \<times> ma_entry_t" where
  "compute_moving_avg_and_volume temp0 entry now ma_out0 =
     (let l = mavg_loop entry now temp0;
          entry' = entry\<lparr>
            trades := (\<lambda>i. if i < new_trade_count l then temp l i else trades entry i),
            trade_count := new_trade_count l\<rparr>;
          ma_out = (if count_l l > 0 then
              ma_out0\<lparr>moving_avg := sum_price l / real (count_l l),
                      total_volume := total_vol l,
                      avg_delay := processing_delay_sum l / real (count_l l)\<rparr>
            else ma_out0\<lparr>moving_avg := 0, total_volume := 0, avg_delay := 0\<rparr>)
      in (entry', ma_out\<lparr>ma_timestamp := now\<rparr>))"

subsection \<open>per_minute_worker\<close>

text \<open>
  The timing of one cycle, from the clock reading \<^verbatim>\<open>actual_start\<close>. The casts
  \<^verbatim>\<open>(time_t)\<close> and \<^verbatim>\<open>(long)\<close> truncate toward zero.
\<close>

definition c_trunc :: "real \<Rightarrow> int" where
  "c_trunc x = (if x \<ge> 0 then \<lfloor>x\<rfloor> else \<lceil>x\<rceil>)"

record cycle_timing_t =
  scheduled :: real
  time_diff :: real
  next_minute :: real
  sleep_duration :: real
  sleep_tv_sec :: int
  sleep_tv_nsec :: int

definition cycle_timing :: "real \<Rightarrow> cycle_timing_t" where
  "cycle_timing actual_start =
     (let scheduled_v = of_int \<lfloor>actual_start / 60\<rfloor> * 60;
          time_diff_v = actual_start - scheduled_v;
          next_minute_v = of_int \<lceil>actual_start / 60\<rceil> * 60;
          sleep_duration_v = next_minute_v - actual_start;
          tv_sec = c_trunc sleep_duration_v;
          tv_nsec = c_trunc ((sleep_duration_v - of_int tv_sec) * 1000000000)
      in \<lparr>scheduled = scheduled_v, time_diff = time_diff_v, next_minute = next_minute_v,
          sleep_duration = sleep_duration_v, sleep_tv_sec = tv_sec, sleep_tv_nsec = tv_nsec\<rparr>)"

text \<open>
  Storing the new record in the history of one instrument: appended while the history
  has room, otherwise the loop over \<open>k = 1..7\<close> shifts every entry one slot down and the
  record goes into the last slot.
\<close>

definition shift_history :: "(nat \<Rightarrow> ma_entry_t) \<Rightarrow> nat \<Rightarrow> ma_entry_t" where
  "shift_history h = fold (\<lambda>k h'. h'(k - 1 := h' k)) [1..<MA_HISTORY_SIZE] h"

definition push_ma :: "moving_avg_t \<Rightarrow> ma_entry_t \<Rightarrow> moving_avg_t" where
  "push_ma inst new_ma =
     (if ma_count inst < MA_HISTORY_SIZE then
        inst\<lparr>ma_history := (ma_history inst)(ma_count inst := new_ma),
             ma_count := ma_count inst + 1\<rparr>
      else
        inst\<lparr>ma_history := (shift_history (ma_history inst))(MA_HISTORY_SIZE - 1 := new_ma)\<rparr>)"

text \<open>The history of an instrument: the first \<^verbatim>\<open>ma_count\<close> slots of \<^verbatim>\<open>ma_history\<close>.\<close>

definition history :: "moving_avg_t \<Rightarrow> ma_entry_t list" where
  "history inst = map (ma_history inst) [0..<ma_count inst]"

text \<open>
  The body of the loop over the instruments, for the instrument in slot \<open>i\<close>: \<open>now\<close> is
  the clock read after the sleep, \<open>temp0\<close> and \<open>new_ma0\<close> are what the uninitialised
  locals \<^verbatim>\<open>temp\<close> and \<^verbatim>\<open>new_ma\<close> hold.
\<close>

definition minute_update_instrument ::
  "(nat \<Rightarrow> trade_t) \<Rightarrow> ma_entry_t \<Rightarrow> real \<Rightarrow> moving_avg_t \<Rightarrow> moving_avg_t" where
  "minute_update_instrument temp0 new_ma0 now inst =
     (let (inst1, new_ma) = compute_moving_avg_and_volume temp0 inst now new_ma0;
          inst2 = push_ma inst1 new_ma
      in case ma_file inst2 of
           None \<Rightarrow> inst2
         | Some f \<Rightarrow> inst2\<lparr>ma_file :=
             Some (f @ [(now, moving_avg new_ma, total_volume new_ma, avg_delay new_ma)])\<rparr>)"

definition minute_update :: "(nat \<Rightarrow> trade_t) \<Rightarrow> ma_entry_t \<Rightarrow> real \<Rightarrow> state \<Rightarrow> state" where
  "minute_update temp0 new_ma0 now s =
     fold (\<lambda>i s'. s'\<lparr>instruments := (instruments s')(i :=
              minute_update_instrument temp0 new_ma0 now (instruments s' i))\<rparr>)
       [0..<num_instruments s] s"

section \<open>Notions used in the statements\<close>

text \<open>
  The states of a run: the program starts in \<open>init_state\<close>; the receive callback stores
  one trade at a time under the lock; the per-minute worker updates all instruments under
  the lock; a correlation thread writes its result under the lock. The argument of the
  thread is left open, so the states of the program are among these.
\<close>

inductive reachable :: "state \<Rightarrow> bool" where
  start: "reachable init_state"
| trade: "reachable s \<Longrightarrow> save_trade_item fopen_ok inst p v now current s = Inr s'
    \<Longrightarrow> reachable s'"
| minute: "reachable s \<Longrightarrow> reachable (minute_update temp0 new_ma0 now s)"
| corr: "reachable s \<Longrightarrow> reachable (compute_corr_thread ct s)"

text \<open>
  What holds of the table in every state of a run: at most 8 slots are in use, and every
  slot in use has a name of at most 15 characters, at most 100000 trades and at most 8
  history records.
\<close>

definition table_ok :: "state \<Rightarrow> bool" where
  "table_ok s \<longleftrightarrow>
     num_instruments s \<le> MAX_INSTRUMENTS \<and>
     (\<forall>i<num_instruments s.
        length (instrument (instruments s i)) \<le> 15 \<and>
        trade_count (instruments s i) \<le> TRADE_BUFFER_SIZE \<and>
        ma_count (instruments s i) \<le> MA_HISTORY_SIZE)"

text \<open>
  The trades among the first \<open>n\<close> slots that \<^verbatim>\<open>compute_moving_avg_and_volume\<close> keeps at
  time \<open>now\<close>, in the order of the slots.
\<close>

definition retained :: "moving_avg_t \<Rightarrow> real \<Rightarrow> nat \<Rightarrow> trade_t list" where
  "retained entry now n =
     filter (\<lambda>t. timestamp t \<ge> now - FIFTEEN_MINUTES) (map (trades entry) [0..<n])"

text \<open>
  An instrument holding three trades, at the times 0, 30 and 60, with the prices 100, 102
  and 101 and the volumes 1, 2 and 1.
\<close>

definition scenario_entry :: moving_avg_t where
  "scenario_entry = zero_instrument\<lparr>
     trades := (\<lambda>_. zero_trade)
       (0 := \<lparr>timestamp = 0, price = 100, volume = 1, delay = 2\<rparr>,
        1 := \<lparr>timestamp = 30, price = 102, volume = 2, delay = 4\<rparr>,
        2 := \<lparr>timestamp = 60, price = 101, volume = 1, delay = 6\<rparr>),
     trade_count := 3\<rparr>"

text \<open>The state after \<open>k\<close> successive calls of \<^verbatim>\<open>get_instrument\<close> with one id.\<close>

definition repeat_get :: "(string \<Rightarrow> bool) \<Rightarrow> string \<Rightarrow> nat \<Rightarrow> state \<Rightarrow> state" where
  "repeat_get fopen_ok name k s = ((\<lambda>s'. snd (get_instrument fopen_ok name s')) ^^ k) s"

text \<open>
  A table with one instrument whose trade window is at capacity.
\<close>

definition full_state :: state where
  "full_state = init_state\<lparr>
     instruments := (\<lambda>_. zero_instrument)
       (0 := zero_instrument\<lparr>instrument := ''BTC-USDT'', trade_count := 100000,
              max_corr := - 2, max_corr_symbol := ''N/A'', trans_file := Some []\<rparr>),
     num_instruments := 1\<rparr>"

text \<open>
  A message with one trade for each of nine distinct instrument ids: the eight ids the
  program subscribes to and one more.
\<close>

definition nine_ids :: "string list" where
  "nine_ids = [''BTC-USDT'', ''ADA-USDT'', ''ETH-USDT'', ''DOGE-USDT'', ''XRP-USDT'',
     ''SOL-USDT'', ''LTC-USDT'', ''BNB-USDT'', ''TRX-USDT'']"

definition event_for :: "string \<Rightarrow> trade_event option" where
  "event_for name =
     Some \<lparr>ev_inst = name, ev_price = 100, ev_vol = 1, ev_now = 5, ev_current = 11 / 2\<rparr>"

text \<open>The ids stored in the table, in slot order.\<close>

definition names_of :: "state \<Rightarrow> string list" where
  "names_of s = map (\<lambda>i. instrument (instruments s i)) [0..<num_instruments s]"





text \<open>The mean of the first \<open>n\<close> values of an array.\<close>

definition vmean :: "(nat \<Rightarrow> real) \<Rightarrow> nat \<Rightarrow> real" where
  "vmean v n = (\<Sum>i<n. v i) / real n"



text \<open>
  Among the first \<open>n\<close> snapshot entries no peer of the thread's entry has a finite
  correlation.
\<close>

definition no_finite_peer :: "corr_thread_arg_t \<Rightarrow> nat \<Rightarrow> bool" where
  "no_finite_peer ct n \<longleftrightarrow> (\<forall>k<n. k \<noteq> index ct \<longrightarrow> peer_corr ct k = None)"

text \<open>
  Among the first \<open>n\<close> snapshot entries, \<open>j\<close> is the first peer whose correlation is finite
  and maximal, and \<open>r\<close> is that correlation: no peer has a greater finite correlation and
  every peer before \<open>j\<close> has a smaller one or none.
\<close>

definition best_peer :: "corr_thread_arg_t \<Rightarrow> nat \<Rightarrow> nat \<Rightarrow> real \<Rightarrow> bool" where
  "best_peer ct n j r \<longleftrightarrow>
     j < n \<and> j \<noteq> index ct \<and> peer_corr ct j = Some r \<and>
     (\<forall>k<n. k \<noteq> index ct \<longrightarrow> (case peer_corr ct k of None \<Rightarrow> True | Some r' \<Rightarrow> r' \<le> r)) \<and>
     (\<forall>k<j. k \<noteq> index ct \<longrightarrow> (case peer_corr ct k of None \<Rightarrow> True | Some r' \<Rightarrow> r' < r))"

text \<open>
  Snapshots for the examples. \<open>ramp_history a b\<close> is a history whose \<open>k\<close>-th moving
  average is \<open>a * k + b\<close>, computed at minute \<open>k + 1\<close>. In \<open>tie_arg\<close> the thread of entry 0
  has three peers: a constant history, and two histories that rise with the history of
  entry 0. In \<open>nan_arg\<close> the history of entry 0 is constant; \<open>prev_state\<close> is a table in
  which an earlier cycle has stored a best peer for that instrument.
\<close>

definition ramp_history :: "real \<Rightarrow> real \<Rightarrow> nat \<Rightarrow> ma_entry_t" where
  "ramp_history a b =
     (\<lambda>k. zero_ma\<lparr>ma_timestamp := 60 * (real k + 1), moving_avg := a * real k + b\<rparr>)"

definition snapshot_entry :: "nat \<Rightarrow> string \<Rightarrow> real \<Rightarrow> real \<Rightarrow> corr_data_t" where
  "snapshot_entry g name a b =
     \<lparr>global_index = g, cd_instrument = name, ma = ramp_history a b\<rparr>"

definition tie_arg :: corr_thread_arg_t where
  "tie_arg = \<lparr>index = 0, total_n = 4,
     data = (\<lambda>_. snapshot_entry 0 [] 0 0)
       (0 := snapshot_entry 0 ''BTC-USDT'' 1 1,
        1 := snapshot_entry 1 ''ADA-USDT'' 0 5,
        2 := snapshot_entry 2 ''ETH-USDT'' 2 7,
        3 := snapshot_entry 3 ''DOGE-USDT'' 3 1),
     current_time = 480\<rparr>"

definition nan_arg :: corr_thread_arg_t where
  "nan_arg = \<lparr>index = 0, total_n = 2,
     data = (\<lambda>_. snapshot_entry 0 [] 0 0)
       (0 := snapshot_entry 0 ''BTC-USDT'' 0 5,
        1 := snapshot_entry 1 ''ETH-USDT'' 1 1),
     current_time = 540\<rparr>"

definition prev_state :: state where
  "prev_state = init_state\<lparr>
     instruments := (\<lambda>_. zero_instrument)
       (0 := zero_instrument\<lparr>instrument := ''BTC-USDT'', ma_history := ramp_history 0 5,
              ma_count := 8, max_corr := 1 / 2, max_corr_symbol := ''ETH-USDT'',
              max_corr_time := 480, max_corr_ma_time := 60\<rparr>,
        1 := zero_instrument\<lparr>instrument := ''ETH-USDT'', ma_history := ramp_history 1 1,
              ma_count := 8, max_corr := - 2, max_corr_symbol := ''N/A''\<rparr>),
     num_instruments := 2\<rparr>"

text \<open>
  The clock readings at the top of the loop of \<^verbatim>\<open>per_minute_worker\<close>, cycle after cycle:
  the first is \<open>t0\<close>; the next one is the sleep target of the cycle plus \<open>late n\<close>, the time
  that passes from the target of cycle \<open>n\<close> to the top of cycle \<open>n + 1\<close> (a late wake-up
  and the work of the cycle).
\<close>

fun wake_time :: "(nat \<Rightarrow> real) \<Rightarrow> real \<Rightarrow> nat \<Rightarrow> real" where
  "wake_time late t0 0 = t0"
| "wake_time late t0 (Suc n) = next_minute (cycle_timing (wake_time late t0 n)) + late n"

section \<open>Properties\<close>

subsection \<open>Index lists of the fixed-size loops\<close>

lemma upt_1_8: "[1..<8] = [1, 2, 3, 4, 5, 6, 7::nat]"
  by (simp add: upt_rec)

lemma upt_0_8: "[0..<8] = [0, 1, 2, 3, 4, 5, 6, 7::nat]"
  by (simp add: upt_rec)

subsection \<open>The moving-average history\<close>

text \<open>The shifting loop moves the entries 1..7 into the slots 0..6 and leaves slot 7.\<close>

lemma shift_history_apply:
  "shift_history h = (\<lambda>i. if i < 7 then h (i + 1) else h i)"
proof (rule ext)
  fix i :: nat
  consider "i = 0" | "i = 1" | "i = 2" | "i = 3" | "i = 4" | "i = 5" | "i = 6" | "7 \<le> i"
    by linarith
  then show "shift_history h i = (if i < 7 then h (i + 1) else h i)"
    unfolding shift_history_def MA_HISTORY_SIZE_def upt_1_8
    by cases (simp_all add: eval_nat_numeral)
qed

lemma history_push_room:
  "ma_count inst < MA_HISTORY_SIZE \<Longrightarrow> history (push_ma inst r) = history inst @ [r]"
  by (simp add: history_def push_ma_def)

lemma history_push_full:
  "ma_count inst = MA_HISTORY_SIZE \<Longrightarrow> history (push_ma inst r) = tl (history inst) @ [r]"
  by (simp add: history_def push_ma_def shift_history_apply MA_HISTORY_SIZE_def upt_0_8
      eval_nat_numeral)

lemma compute_keeps_history:
  "ma_history (fst (compute_moving_avg_and_volume t inst now m)) = ma_history inst"
  "ma_count (fst (compute_moving_avg_and_volume t inst now m)) = ma_count inst"
  by (simp_all add: compute_moving_avg_and_volume_def Let_def)

lemma history_ma_file [simp]: "history (inst\<lparr>ma_file := f\<rparr>) = history inst"
  by (simp add: history_def)

lemma history_minute_update:
  "history (minute_update_instrument t m now inst) =
     history (push_ma (fst (compute_moving_avg_and_volume t inst now m))
                      (snd (compute_moving_avg_and_volume t inst now m)))"
  by (simp add: minute_update_instrument_def Let_def split_beta split: option.splits)

text \<open>
  Claim C4. A history of at most 8 records has at most 8 records after a push. Pushing a
  record \<open>r\<close> into a history of fewer than 8 records appends \<open>r\<close>; pushing it into a history
  of 8 records \<open>r1..r8\<close> gives the 8 records \<open>r2..r8\<close> followed by \<open>r\<close>. The per-minute
  update of an instrument pushes, in this way, the record that
  \<^verbatim>\<open>compute_moving_avg_and_volume\<close> returns.
\<close>

theorem ma_history_push:
  assumes "ma_count inst \<le> MA_HISTORY_SIZE"
  shows "length (history (push_ma inst r)) \<le> MA_HISTORY_SIZE
       \<and> history (push_ma inst r) =
           (if ma_count inst < MA_HISTORY_SIZE then history inst @ [r]
            else tl (history inst) @ [r])
       \<and> length (history (push_ma inst r)) = min MA_HISTORY_SIZE (length (history inst) + 1)
       \<and> history (minute_update_instrument t m now inst) =
           (let r' = snd (compute_moving_avg_and_volume t inst now m)
            in if length (history inst) < MA_HISTORY_SIZE then history inst @ [r']
               else tl (history inst) @ [r'])"
proof -
  have len: "length (history i) = ma_count i" for i
    by (simp add: history_def)
  have hist_c: "history (fst (compute_moving_avg_and_volume t inst now m)) = history inst"
    by (simp add: history_def compute_keeps_history)
  have p: "history (push_ma i x) =
           (if ma_count i < MA_HISTORY_SIZE then history i @ [x] else tl (history i) @ [x])"
    if "ma_count i \<le> MA_HISTORY_SIZE" for i x
    using that history_push_room [of i x] history_push_full [of i x] by auto
  have l: "length (history (push_ma inst r)) = min MA_HISTORY_SIZE (length (history inst) + 1)"
    using assms by (simp add: p len) (auto simp: MA_HISTORY_SIZE_def)
  have m: "history (minute_update_instrument t m now inst) =
           (let r' = snd (compute_moving_avg_and_volume t inst now m)
            in if length (history inst) < MA_HISTORY_SIZE then history inst @ [r']
               else tl (history inst) @ [r'])"
    using assms by (simp add: history_minute_update p compute_keeps_history hist_c len Let_def)
  show ?thesis using assms l m by (simp add: p)
qed

text \<open>
  The history whose moving averages are 0..7, pushed with the record whose moving
  average is 8: the result holds 1..8.
\<close>

theorem ma_history_push_witness:
  "ma_count (zero_instrument\<lparr>ma_history := (\<lambda>i. zero_ma\<lparr>moving_avg := real i\<rparr>), ma_count := 8\<rparr>)
     \<le> MA_HISTORY_SIZE
   \<and> map moving_avg (history (push_ma
        (zero_instrument\<lparr>ma_history := (\<lambda>i. zero_ma\<lparr>moving_avg := real i\<rparr>), ma_count := 8\<rparr>)
        (zero_ma\<lparr>moving_avg := 8\<rparr>))) = [1, 2, 3, 4, 5, 6, 7, 8]"
proof -
  let ?i = "zero_instrument\<lparr>ma_history := (\<lambda>i. zero_ma\<lparr>moving_avg := real i\<rparr>), ma_count := 8\<rparr>"
  let ?r = "zero_ma\<lparr>moving_avg := 8\<rparr>"
  have h: "ma_count ?i \<le> MA_HISTORY_SIZE"
    by (simp add: MA_HISTORY_SIZE_def)
  have hist: "history ?i = map (\<lambda>i. zero_ma\<lparr>moving_avg := real i\<rparr>) [0, 1, 2, 3, 4, 5, 6, 7]"
    by (simp add: history_def upt_0_8)
  from ma_history_push [OF h, of ?r "\<lambda>_. zero_trade" zero_ma 0]
  have "history (push_ma ?i ?r) = tl (history ?i) @ [?r]"
    by (simp add: MA_HISTORY_SIZE_def)
  then show ?thesis
    using h by (simp add: hist)
qed

subsection \<open>The trade window and the moving average\<close>

lemma retained_Suc:
  "retained entry now (Suc n) =
     (if timestamp (trades entry n) \<ge> now - FIFTEEN_MINUTES
      then retained entry now n @ [trades entry n] else retained entry now n)"
  by (simp add: retained_def)

lemma map_upt_if_eq: "map (\<lambda>a. if a = n then x else f a) [0..<n] = map f [0..<n]"
  by (rule map_cong) auto

lemma map_upt_if_less: "map (\<lambda>i. if i < n then f i else g i) [0..<n] = map f [0..<n]"
  by (rule map_cong) auto

lemma mavg_step_apply:
  "mavg_step entry now i l =
     (if timestamp (trades entry i) \<ge> now - FIFTEEN_MINUTES then
        l\<lparr>sum_price := sum_price l + price (trades entry i),
          total_vol := total_vol l + volume (trades entry i),
          processing_delay_sum := processing_delay_sum l + delay (trades entry i),
          temp := (temp l)(new_trade_count l := trades entry i),
          new_trade_count := new_trade_count l + 1,
          count_l := count_l l + 1\<rparr>
      else l)"
  by (simp add: mavg_step_def)

lemma mavg_fold:
  fixes entry :: moving_avg_t and now :: real and n :: nat and temp0 :: "nat \<Rightarrow> trade_t"
  defines "l \<equiv> fold (mavg_step entry now) [0..<n]
       \<lparr>sum_price = 0, total_vol = 0, processing_delay_sum = 0, count_l = 0,
        new_trade_count = 0, temp = temp0\<rparr>"
  shows "new_trade_count l = length (retained entry now n)
       \<and> count_l l = length (retained entry now n)
       \<and> sum_price l = sum_list (map price (retained entry now n))
       \<and> total_vol l = sum_list (map volume (retained entry now n))
       \<and> processing_delay_sum l = sum_list (map delay (retained entry now n))
       \<and> map (temp l) [0..<length (retained entry now n)] = retained entry now n"
  unfolding l_def
proof (induction n)
  case 0
  show ?case by (simp add: retained_def)
next
  case (Suc n)
  define L where "L = fold (mavg_step entry now) [0..<n]
       \<lparr>sum_price = 0, total_vol = 0, processing_delay_sum = 0, count_l = 0,
        new_trade_count = 0, temp = temp0\<rparr>"
  have step: "fold (mavg_step entry now) [0..<Suc n]
       \<lparr>sum_price = 0, total_vol = 0, processing_delay_sum = 0, count_l = 0,
        new_trade_count = 0, temp = temp0\<rparr> = mavg_step entry now n L"
    by (simp add: L_def)
  show ?case
    unfolding step using Suc [folded L_def]
    by (simp add: retained_Suc mavg_step_apply map_upt_if_eq)
qed

lemma trade_window_retained: "retained entry now (trade_count entry) =
   filter (\<lambda>t. timestamp t \<ge> now - FIFTEEN_MINUTES) (trade_window entry)"
  by (simp add: retained_def trade_window_def)

text \<open>
  Claim C2. After \<^verbatim>\<open>compute_moving_avg_and_volume\<close> at time \<open>now\<close> the trade window is the
  list of the trades of the old window whose time is at least \<open>now - 900\<close>, in their old
  order. When that list is not empty the record returned holds the arithmetic mean of its
  prices, the sum of its volumes and the arithmetic mean of its delays; when it is empty
  the three fields are 0. In both cases the record is stamped with \<open>now\<close>.
\<close>

theorem compute_moving_avg_window:
  "(let (entry', ma_out) = compute_moving_avg_and_volume temp0 entry now ma_out0;
        kept = filter (\<lambda>t. timestamp t \<ge> now - 900) (trade_window entry)
    in trade_window entry' = kept
     \<and> (if kept \<noteq> [] then
          moving_avg ma_out = sum_list (map price kept) / real (length kept)
        \<and> total_volume ma_out = sum_list (map volume kept)
        \<and> avg_delay ma_out = sum_list (map delay kept) / real (length kept)
        else moving_avg ma_out = 0 \<and> total_volume ma_out = 0 \<and> avg_delay ma_out = 0)
     \<and> ma_timestamp ma_out = now)"
proof -
  let ?l = "mavg_loop entry now temp0"
  let ?kept = "filter (\<lambda>t. timestamp t \<ge> now - 900) (trade_window entry)"
  have k: "retained entry now (trade_count entry) = ?kept"
    by (simp add: trade_window_retained FIFTEEN_MINUTES_def)
  note f = mavg_fold [of entry now "trade_count entry" temp0, folded mavg_loop_def, unfolded k]
  have w: "trade_window (fst (compute_moving_avg_and_volume temp0 entry now ma_out0)) = ?kept"
  proof -
    have "trade_window (fst (compute_moving_avg_and_volume temp0 entry now ma_out0))
        = map (temp ?l) [0..<new_trade_count ?l]"
      by (simp add: compute_moving_avg_and_volume_def Let_def trade_window_def map_upt_if_less)
    also have "\<dots> = ?kept"
      using f by simp
    finally show ?thesis .
  qed
  have c: "count_l ?l > 0 \<longleftrightarrow> ?kept \<noteq> []"
    using f by simp
  show ?thesis
    using w f c
    by (simp add: compute_moving_avg_and_volume_def Let_def split_beta)
qed

lemma scenario_window:
  "trade_window scenario_entry =
     [\<lparr>timestamp = 0, price = 100, volume = 1, delay = 2\<rparr>,
      \<lparr>timestamp = 30, price = 102, volume = 2, delay = 4\<rparr>,
      \<lparr>timestamp = 60, price = 101, volume = 1, delay = 6\<rparr>]"
  by (simp add: trade_window_def scenario_entry_def upt_rec)

text \<open>
  The three trades at the times 0, 30 and 60: at time 60 all are kept (mean price 101,
  volume 4), at time 950 only the last one, at time 2000 none.
\<close>

theorem compute_moving_avg_window_witness:
  "(let (entry', ma_out) = compute_moving_avg_and_volume (\<lambda>_. zero_trade) scenario_entry 60 zero_ma
    in map timestamp (trade_window entry') = [0, 30, 60]
     \<and> moving_avg ma_out = 101 \<and> total_volume ma_out = 4 \<and> avg_delay ma_out = 4
     \<and> ma_timestamp ma_out = 60)
 \<and> (let (entry', ma_out) = compute_moving_avg_and_volume (\<lambda>_. zero_trade) scenario_entry 950 zero_ma
    in map timestamp (trade_window entry') = [60]
     \<and> moving_avg ma_out = 101 \<and> total_volume ma_out = 1 \<and> avg_delay ma_out = 6
     \<and> ma_timestamp ma_out = 950)
 \<and> (let (entry', ma_out) = compute_moving_avg_and_volume (\<lambda>_. zero_trade) scenario_entry 2000 zero_ma
    in trade_window entry' = []
     \<and> moving_avg ma_out = 0 \<and> total_volume ma_out = 0 \<and> avg_delay ma_out = 0
     \<and> ma_timestamp ma_out = 2000)"
  using compute_moving_avg_window [of "\<lambda>_. zero_trade" scenario_entry 60 zero_ma]
    compute_moving_avg_window [of "\<lambda>_. zero_trade" scenario_entry 950 zero_ma]
    compute_moving_avg_window [of "\<lambda>_. zero_trade" scenario_entry 2000 zero_ma]
  by (simp add: scenario_window split_beta Let_def)

subsection \<open>The instrument table\<close>

lemma lookup_None_iff:
  "lookup_instrument s name = None \<longleftrightarrow>
     (\<forall>i<num_instruments s. instrument (instruments s i) \<noteq> name)"
  by (auto simp: lookup_instrument_def find_None_iff)

lemma lookup_Some_iff:
  "lookup_instrument s name = Some i \<longleftrightarrow>
     i < num_instruments s \<and> instrument (instruments s i) = name \<and>
     (\<forall>j<i. instrument (instruments s j) \<noteq> name)"
  by (auto simp: lookup_instrument_def find_Some_iff)

lemma get_instrument_found:
  "lookup_instrument s name = Some i \<Longrightarrow> get_instrument fopen_ok name s = (Some i, s)"
  by (simp add: get_instrument_def)

lemma get_instrument_full:
  "lookup_instrument s name = None \<Longrightarrow> \<not> num_instruments s < MAX_INSTRUMENTS \<Longrightarrow>
   get_instrument fopen_ok name s =
     (None, s\<lparr>stderr_out := stderr_out s @ [''Too many instruments!'']\<rparr>)"
  by (simp add: get_instrument_def)

lemma get_instrument_new:
  assumes "lookup_instrument s name = None" "num_instruments s < MAX_INSTRUMENTS"
    and "get_instrument fopen_ok name s = (r, s')"
  shows "r = Some (num_instruments s)"
    and "num_instruments s' = num_instruments s + 1"
    and "instrument (instruments s' (num_instruments s)) = take 15 name"
    and "trade_count (instruments s' (num_instruments s)) = 0"
    and "ma_count (instruments s' (num_instruments s)) = 0"
    and "trades (instruments s' (num_instruments s)) = trades (instruments s (num_instruments s))"
    and "\<And>i. i \<noteq> num_instruments s \<Longrightarrow> instruments s' i = instruments s i"
    and "stderr_out s' = stderr_out s"
  using assms by (auto simp: get_instrument_def Let_def)

lemma get_instrument_table_ok:
  assumes "table_ok s" "get_instrument fopen_ok name s = (r, s')"
  shows "table_ok s'"
proof (cases "lookup_instrument s name")
  case (Some i)
  with assms show ?thesis by (simp add: get_instrument_found)
next
  case None
  show ?thesis
  proof (cases "num_instruments s < MAX_INSTRUMENTS")
    case True
    note n = get_instrument_new [OF None True assms(2)]
    show ?thesis
      unfolding table_ok_def
    proof (intro conjI allI impI)
      show "num_instruments s' \<le> MAX_INSTRUMENTS" using True n(2) by simp
    next
      fix i assume "i < num_instruments s'"
      then consider "i < num_instruments s" | "i = num_instruments s" using n(2) by linarith
      then show "length (instrument (instruments s' i)) \<le> 15"
        using assms(1) n by cases (auto simp: table_ok_def)
    next
      fix i assume "i < num_instruments s'"
      then consider "i < num_instruments s" | "i = num_instruments s" using n(2) by linarith
      then show "trade_count (instruments s' i) \<le> TRADE_BUFFER_SIZE"
        using assms(1) n by cases (auto simp: table_ok_def)
    next
      fix i assume "i < num_instruments s'"
      then consider "i < num_instruments s" | "i = num_instruments s" using n(2) by linarith
      then show "ma_count (instruments s' i) \<le> MA_HISTORY_SIZE"
        using assms(1) n by cases (auto simp: table_ok_def)
    qed
  next
    case False
    with None assms show ?thesis
      by (auto simp: get_instrument_full table_ok_def)
  qed
qed

lemma long_id_lookup:
  assumes "table_ok s" "15 < length name"
  shows "lookup_instrument s name = None"
  unfolding lookup_None_iff using assms by (auto simp: table_ok_def)

lemma lookup_after_new:
  assumes "lookup_instrument s name = None" "num_instruments s < MAX_INSTRUMENTS"
    and "get_instrument fopen_ok name s = (r, s')" "length name \<le> 15"
  shows "lookup_instrument s' name = Some (num_instruments s)"
proof -
  note n = get_instrument_new [OF assms(1,2,3)]
  have "\<forall>j<num_instruments s. instrument (instruments s' j) \<noteq> name"
    using assms(1) n(7) by (simp add: lookup_None_iff)
  then show ?thesis
    using n(2,3) assms(4) by (simp add: lookup_Some_iff)
qed

text \<open>Repeated calls with one id.\<close>

lemma get_instrument_idem:
  assumes "get_instrument fopen_ok name s = (Some i, s')" "length name \<le> 15"
  shows "get_instrument fopen_ok' name s' = (Some i, s')"
proof (cases "lookup_instrument s name")
  case (Some j)
  with assms show ?thesis by (auto simp: get_instrument_found)
next
  case None
  show ?thesis
  proof (cases "num_instruments s < MAX_INSTRUMENTS")
    case True
    from get_instrument_new(1) [OF None True assms(1)] lookup_after_new [OF None True assms]
    show ?thesis by (simp add: get_instrument_found)
  next
    case False
    with None assms show ?thesis by (simp add: get_instrument_full)
  qed
qed

lemma repeat_get_Suc:
  "repeat_get fopen_ok name (Suc k) s =
     snd (get_instrument fopen_ok name (repeat_get fopen_ok name k s))"
  by (simp add: repeat_get_def)

lemma repeat_get_long:
  assumes "table_ok s" "15 < length name"
  shows "table_ok (repeat_get fopen_ok name k s) \<and>
         num_instruments (repeat_get fopen_ok name k s) =
           min MAX_INSTRUMENTS (num_instruments s + k)"
proof (induction k)
  case 0
  from assms(1) show ?case by (simp add: repeat_get_def table_ok_def)
next
  case (Suc k)
  let ?s = "repeat_get fopen_ok name k s"
  obtain r s' where g: "get_instrument fopen_ok name ?s = (r, s')"
    by (cases "get_instrument fopen_ok name ?s")
  from Suc have ok: "table_ok ?s" by simp
  have l: "lookup_instrument ?s name = None"
    using ok assms(2) by (rule long_id_lookup)
  have ok': "table_ok s'" using ok g by (rule get_instrument_table_ok)
  have le: "num_instruments ?s \<le> MAX_INSTRUMENTS" using ok by (simp add: table_ok_def)
  show ?case
  proof (cases "num_instruments ?s < MAX_INSTRUMENTS")
    case True
    from get_instrument_new(2) [OF l True g] Suc True ok'
    show ?thesis by (simp add: repeat_get_Suc g)
  next
    case False
    with l g have "num_instruments s' = num_instruments ?s"
      by (auto simp: get_instrument_full)
    with Suc False le ok' show ?thesis by (simp add: repeat_get_Suc g)
  qed
qed

text \<open>
  Ids of more than 15 characters in \<^verbatim>\<open>get_instrument\<close>. In a table whose stored names have at most 15 characters (every state of a run
  is one, see \<open>reachable_table_ok\<close> below), an id of more than 15 characters matches no
  entry. While the table has room, \<^verbatim>\<open>get_instrument\<close> stores the id cut to 15 characters
  in a fresh slot and the table stays one whose names have at most 15 characters, so that
  the next call creates again: after \<open>k\<close> calls the table holds \<open>min 8 (n + k)\<close> slots.
  Once it holds 8 the call returns the null pointer and leaves the table as it is. For an id
  of at most 15 characters a call that returned a slot returns the same slot, in the same
  state, when repeated.
\<close>

lemma long_id_get_instrument:
  assumes "table_ok s" and "15 < length name"
  shows "lookup_instrument s name = None
       \<and> (num_instruments s < MAX_INSTRUMENTS \<longrightarrow>
            fst (get_instrument fopen_ok name s) = Some (num_instruments s)
          \<and> num_instruments (snd (get_instrument fopen_ok name s)) = num_instruments s + 1
          \<and> instrument (instruments (snd (get_instrument fopen_ok name s)) (num_instruments s))
              = take 15 name)
       \<and> (num_instruments s = MAX_INSTRUMENTS \<longrightarrow>
            fst (get_instrument fopen_ok name s) = None
          \<and> instruments (snd (get_instrument fopen_ok name s)) = instruments s
          \<and> num_instruments (snd (get_instrument fopen_ok name s)) = num_instruments s)
       \<and> table_ok (snd (get_instrument fopen_ok name s))
       \<and> num_instruments (repeat_get fopen_ok name k s) =
            min MAX_INSTRUMENTS (num_instruments s + k)
       \<and> (\<forall>name' i s'. length name' \<le> 15 \<and> get_instrument fopen_ok name' s = (Some i, s')
            \<longrightarrow> get_instrument fopen_ok name' s' = (Some i, s'))"
proof -
  obtain r s1 where g: "get_instrument fopen_ok name s = (r, s1)"
    by (cases "get_instrument fopen_ok name s")
  have l: "lookup_instrument s name = None"
    using assms by (rule long_id_lookup)
  have a: "num_instruments s < MAX_INSTRUMENTS \<longrightarrow>
            fst (get_instrument fopen_ok name s) = Some (num_instruments s)
          \<and> num_instruments (snd (get_instrument fopen_ok name s)) = num_instruments s + 1
          \<and> instrument (instruments (snd (get_instrument fopen_ok name s)) (num_instruments s))
              = take 15 name"
    using get_instrument_new(1,2,3) [OF l _ g] by (simp add: g)
  have b: "num_instruments s = MAX_INSTRUMENTS \<longrightarrow>
            fst (get_instrument fopen_ok name s) = None
          \<and> instruments (snd (get_instrument fopen_ok name s)) = instruments s
          \<and> num_instruments (snd (get_instrument fopen_ok name s)) = num_instruments s"
    using l by (simp add: get_instrument_full)
  have c: "table_ok (snd (get_instrument fopen_ok name s))"
    using get_instrument_table_ok [OF assms(1) g] by (simp add: g)
  have d: "num_instruments (repeat_get fopen_ok name k s) =
            min MAX_INSTRUMENTS (num_instruments s + k)"
    using repeat_get_long [OF assms] by simp
  have e: "\<forall>name' i s'. length name' \<le> 15 \<and> get_instrument fopen_ok name' s = (Some i, s')
            \<longrightarrow> get_instrument fopen_ok name' s' = (Some i, s')"
    using get_instrument_idem by blast
  from l a b c d e show ?thesis by blast
qed

lemma table_ok_init: "table_ok init_state"
  by (simp add: table_ok_def init_state_def)

text \<open>
  The 16-character id \<open>BTC-USDT-SWAP-01\<close> on the empty table: the first call fills slot
  0 with the 15-character prefix, the second call fills slot 1, eight calls fill the table
  and the ninth returns the null pointer.
\<close>

lemma long_id_get_instrument_example:
  "table_ok init_state \<and> 15 < length ''BTC-USDT-SWAP-01''
 \<and> fst (get_instrument (\<lambda>_. True) ''BTC-USDT-SWAP-01'' init_state) = Some 0
 \<and> instrument (instruments (snd (get_instrument (\<lambda>_. True) ''BTC-USDT-SWAP-01'' init_state)) 0)
      = ''BTC-USDT-SWAP-0''
 \<and> fst (get_instrument (\<lambda>_. True) ''BTC-USDT-SWAP-01''
      (snd (get_instrument (\<lambda>_. True) ''BTC-USDT-SWAP-01'' init_state))) = Some 1
 \<and> num_instruments (repeat_get (\<lambda>_. True) ''BTC-USDT-SWAP-01'' 8 init_state) = 8
 \<and> fst (get_instrument (\<lambda>_. True) ''BTC-USDT-SWAP-01''
      (repeat_get (\<lambda>_. True) ''BTC-USDT-SWAP-01'' 8 init_state)) = None"
proof -
  let ?n = "''BTC-USDT-SWAP-01''"
  let ?s1 = "snd (get_instrument (\<lambda>_. True) ?n init_state)"
  let ?s8 = "repeat_get (\<lambda>_. True) ?n 8 init_state"
  have len: "15 < length ?n" by simp
  note t0 = long_id_get_instrument [OF table_ok_init len, of "\<lambda>_. True" 8]
  have n0: "num_instruments init_state = 0" by (simp add: init_state_def)
  have lt0: "num_instruments init_state < MAX_INSTRUMENTS"
    by (simp add: n0 MAX_INSTRUMENTS_def)
  from t0 have ok1: "table_ok ?s1" by blast
  from t0 lt0 have f0: "fst (get_instrument (\<lambda>_. True) ?n init_state) = Some (num_instruments init_state)"
    and n1': "num_instruments ?s1 = num_instruments init_state + 1"
    and i0: "instrument (instruments ?s1 (num_instruments init_state)) = take 15 ?n"
    by blast+
  have n1: "num_instruments ?s1 = 1" using n1' by (simp only: n0)
  have lt1: "num_instruments ?s1 < MAX_INSTRUMENTS"
    by (simp only: n1 MAX_INSTRUMENTS_def)
  note t1 = long_id_get_instrument [OF ok1 len, of "\<lambda>_. True" 0]
  from t1 lt1 have f1: "fst (get_instrument (\<lambda>_. True) ?n ?s1) = Some (num_instruments ?s1)"
    by blast
  have ok8: "table_ok ?s8" using repeat_get_long [OF table_ok_init len] by blast
  from t0 have n8': "num_instruments ?s8 = min MAX_INSTRUMENTS (num_instruments init_state + 8)"
    by blast
  have n8: "num_instruments ?s8 = 8"
    by (simp only: n8' n0 MAX_INSTRUMENTS_def)
  have eq8: "num_instruments ?s8 = MAX_INSTRUMENTS"
    by (simp only: n8 MAX_INSTRUMENTS_def)
  note t8 = long_id_get_instrument [OF ok8 len, of "\<lambda>_. True" 0]
  from t8 eq8 have f8: "fst (get_instrument (\<lambda>_. True) ?n ?s8) = None"
    by blast
  have tk: "take 15 ?n = ''BTC-USDT-SWAP-0''" by simp
  show ?thesis
    using table_ok_init len f0 [unfolded n0] i0 [unfolded n0 tk] f1 [unfolded n1] n8 f8
    by blast
qed

subsection \<open>Storing a trade\<close>

lemma get_instrument_index:
  assumes "get_instrument fopen_ok name s = (Some i, s')"
  shows "i < num_instruments s'"
proof (cases "lookup_instrument s name")
  case (Some j)
  with assms show ?thesis by (auto simp: get_instrument_found lookup_Some_iff)
next
  case None
  show ?thesis
  proof (cases "num_instruments s < MAX_INSTRUMENTS")
    case True
    from get_instrument_new(1,2) [OF None True assms] show ?thesis by simp
  next
    case False
    with None assms show ?thesis by (simp add: get_instrument_full)
  qed
qed

text \<open>The outcomes of storing one trade, by the result of the lookup.\<close>

lemma save_trade_item_null:
  "fst (get_instrument fopen_ok inst s) = None \<Longrightarrow>
   save_trade_item fopen_ok inst p v now current s = Inl NullPointerDereference"
  by (simp add: save_trade_item_def split_beta split: option.splits)

lemma save_trade_item_full:
  "get_instrument fopen_ok inst s = (Some i, s1) \<Longrightarrow>
   \<not> trade_count (instruments s1 i) < TRADE_BUFFER_SIZE \<Longrightarrow>
   save_trade_item fopen_ok inst p v now current s = Inr s1"
  by (simp add: save_trade_item_def Let_def)

lemma save_trade_item_append:
  "get_instrument fopen_ok inst s = (Some i, s1) \<Longrightarrow>
   trade_count (instruments s1 i) < TRADE_BUFFER_SIZE \<Longrightarrow>
   save_trade_item fopen_ok inst p v now current s =
     Inr (s1\<lparr>instruments := (instruments s1)(i := append_trade (instruments s1 i) p v now current)\<rparr>)"
  by (simp add: save_trade_item_def)

lemma append_trade_fields:
  "instrument (append_trade entry p v now current) = instrument entry"
  "trade_count (append_trade entry p v now current) = trade_count entry + 1"
  "ma_count (append_trade entry p v now current) = ma_count entry"
  "ma_history (append_trade entry p v now current) = ma_history entry"
  "trades (append_trade entry p v now current) = (trades entry)(trade_count entry :=
      \<lparr>timestamp = now, price = p, volume = v, delay = current - now\<rparr>)"
  by (simp_all add: append_trade_def Let_def split: option.splits)

lemma save_trade_item_table_ok:
  assumes "table_ok s" "save_trade_item fopen_ok inst p v now current s = Inr s'"
  shows "table_ok s'"
proof -
  obtain r s1 where g: "get_instrument fopen_ok inst s = (r, s1)"
    by (cases "get_instrument fopen_ok inst s")
  have ok1: "table_ok s1" using assms(1) g by (rule get_instrument_table_ok)
  show ?thesis
  proof (cases r)
    case None
    with g assms(2) show ?thesis by (simp add: save_trade_item_null)
  next
    case (Some i)
    show ?thesis
    proof (cases "trade_count (instruments s1 i) < TRADE_BUFFER_SIZE")
      case False
      with g Some assms(2) ok1 show ?thesis by (simp add: save_trade_item_full)
    next
      case True
      from g Some True assms(2)
      have s': "s' = s1\<lparr>instruments := (instruments s1)(i := append_trade (instruments s1 i) p v now current)\<rparr>"
        by (simp add: save_trade_item_append)
      show ?thesis
        using ok1 True unfolding s' table_ok_def
        by (auto simp: append_trade_fields)
    qed
  qed
qed

lemma minute_update_fold:
  fixes s :: state and tmp :: "nat \<Rightarrow> trade_t" and nm :: ma_entry_t and now :: real
  defines "F \<equiv> \<lambda>n. fold (\<lambda>i s'. s'\<lparr>instruments := (instruments s')(i :=
              minute_update_instrument tmp nm now (instruments s' i))\<rparr>) [0..<n] s"
  shows "num_instruments (F n) = num_instruments s \<and> stderr_out (F n) = stderr_out s \<and>
         instruments (F n) = (\<lambda>i. if i < n
            then minute_update_instrument tmp nm now (instruments s i)
            else instruments s i)"
proof (induction n)
  case 0
  show ?case by (simp add: F_def)
next
  case (Suc n)
  have step: "F (Suc n) = (F n)\<lparr>instruments := (instruments (F n))(n :=
              minute_update_instrument tmp nm now (instruments (F n) n))\<rparr>"
    by (simp add: F_def)
  show ?case
    unfolding step using Suc by (auto simp: fun_eq_iff)
qed

lemma minute_update_apply:
  "num_instruments (minute_update temp0 new_ma0 now s) = num_instruments s"
  "stderr_out (minute_update temp0 new_ma0 now s) = stderr_out s"
  "instruments (minute_update temp0 new_ma0 now s) i =
     (if i < num_instruments s
      then minute_update_instrument temp0 new_ma0 now (instruments s i)
      else instruments s i)"
  using minute_update_fold [where n = "num_instruments s" and s = s and now = now
      and tmp = temp0 and nm = new_ma0]
  by (simp_all add: minute_update_def)

lemma retained_length: "length (retained entry now n) \<le> n"
  using length_filter_le [of _ "map (trades entry) [0..<n]"] by (simp add: retained_def)

lemma minute_update_instrument_fields:
  "instrument (minute_update_instrument temp0 new_ma0 now inst) = instrument inst"
  "trade_count (minute_update_instrument temp0 new_ma0 now inst) \<le> trade_count inst"
  "ma_count inst \<le> MA_HISTORY_SIZE \<Longrightarrow>
     ma_count (minute_update_instrument temp0 new_ma0 now inst) \<le> MA_HISTORY_SIZE"
proof -
  note f = mavg_fold [of entry now "trade_count entry" temp0 for entry, folded mavg_loop_def]
  show "instrument (minute_update_instrument temp0 new_ma0 now inst) = instrument inst"
    by (simp add: minute_update_instrument_def compute_moving_avg_and_volume_def Let_def
        push_ma_def split: option.splits)
  have "new_trade_count (mavg_loop inst now temp0) \<le> trade_count inst"
    using f [of inst] retained_length [of inst now "trade_count inst"] by simp
  then show "trade_count (minute_update_instrument temp0 new_ma0 now inst) \<le> trade_count inst"
    by (simp add: minute_update_instrument_def compute_moving_avg_and_volume_def Let_def
        push_ma_def split: option.splits)
  show "ma_count (minute_update_instrument temp0 new_ma0 now inst) \<le> MA_HISTORY_SIZE"
    if "ma_count inst \<le> MA_HISTORY_SIZE"
    using that
    by (simp add: minute_update_instrument_def compute_moving_avg_and_volume_def Let_def
        push_ma_def split: option.splits)
qed

lemma minute_update_table_ok:
  assumes "table_ok s"
  shows "table_ok (minute_update temp0 new_ma0 now s)"
proof -
  have t: "trade_count (minute_update_instrument temp0 new_ma0 now inst) \<le> TRADE_BUFFER_SIZE"
    if "trade_count inst \<le> TRADE_BUFFER_SIZE" for inst
    using that minute_update_instrument_fields(2) [of temp0 new_ma0 now inst] by linarith
  show ?thesis
    using assms t minute_update_instrument_fields(3) [of _ temp0 new_ma0 now]
    unfolding table_ok_def
    by (simp add: minute_update_apply minute_update_instrument_fields(1))
qed

lemma compute_corr_thread_fields:
  "num_instruments (compute_corr_thread ct s) = num_instruments s"
  "instrument (instruments (compute_corr_thread ct s) i) = instrument (instruments s i)"
  "trade_count (instruments (compute_corr_thread ct s) i) = trade_count (instruments s i)"
  "trades (instruments (compute_corr_thread ct s) i) = trades (instruments s i)"
  "ma_count (instruments (compute_corr_thread ct s) i) = ma_count (instruments s i)"
  "ma_history (instruments (compute_corr_thread ct s) i) = ma_history (instruments s i)"
  by (simp_all add: compute_corr_thread_def Let_def split: option.splits)

lemma compute_corr_thread_table_ok:
  "table_ok s \<Longrightarrow> table_ok (compute_corr_thread ct s)"
  by (simp add: table_ok_def compute_corr_thread_fields)

lemma reachable_table_ok: "reachable s \<Longrightarrow> table_ok s"
proof (induction rule: reachable.induct)
  case start
  show ?case by (rule table_ok_init)
next
  case (trade s fopen_ok inst p v now current s')
  then show ?case by (auto intro: save_trade_item_table_ok)
next
  case (minute s temp0 new_ma0 now)
  then show ?case by (simp add: minute_update_table_ok)
next
  case (corr s ct)
  then show ?case by (simp add: compute_corr_thread_table_ok)
qed

lemma get_instrument_new_files:
  assumes "lookup_instrument s name = None" "num_instruments s < MAX_INSTRUMENTS"
    and "get_instrument fopen_ok name s = (r, s')"
  shows "trans_file (instruments s' (num_instruments s)) =
           fopen_w fopen_ok (take 127 (''data/'' @ name) @ ''/transactions.csv'')"
  using assms by (auto simp: get_instrument_def Let_def)

lemma lookup_full_state: "lookup_instrument full_state ''BTC-USDT'' = Some 0"
  by (simp add: lookup_Some_iff full_state_def init_state_def)

text \<open>
  Claim C3. In every state of a run the trade window of every instrument in the table holds
  at most 100000 trades. Storing a trade for an instrument whose window holds 100000 trades
  returns the state unchanged: the window keeps its count and its contents, and the incoming
  trade is not stored.
\<close>

theorem trade_window_capacity:
  "(reachable s \<and> i < num_instruments s \<longrightarrow>
      length (trade_window (instruments s i)) \<le> TRADE_BUFFER_SIZE)
 \<and> (lookup_instrument s inst = Some j \<and> trade_count (instruments s j) = TRADE_BUFFER_SIZE \<longrightarrow>
      save_trade_item fopen_ok inst p v now current s = Inr s)"
proof (intro conjI impI)
  assume "reachable s \<and> i < num_instruments s"
  then have "table_ok s" "i < num_instruments s"
    by (simp_all add: reachable_table_ok)
  then show "length (trade_window (instruments s i)) \<le> TRADE_BUFFER_SIZE"
    by (simp add: table_ok_def trade_window_def)
next
  assume a: "lookup_instrument s inst = Some j \<and> trade_count (instruments s j) = TRADE_BUFFER_SIZE"
  then have "get_instrument fopen_ok inst s = (Some j, s)"
    by (simp add: get_instrument_found)
  then show "save_trade_item fopen_ok inst p v now current s = Inr s"
    using a by (simp add: save_trade_item_full)
qed

lemma first_trade:
  assumes "num_instruments s = 0" "0 < MAX_INSTRUMENTS"
  shows "\<exists>s'. save_trade_item fopen_ok inst p v now current s = Inr s'
     \<and> num_instruments s' = 1
     \<and> trades (instruments s' 0) = (trades (instruments s 0))(0 :=
          \<lparr>timestamp = now, price = p, volume = v, delay = current - now\<rparr>)
     \<and> trade_count (instruments s' 0) = 1
     \<and> trans_file (instruments s' 0) =
         (if fopen_ok (take 127 (''data/'' @ inst) @ ''/transactions.csv'')
          then Some [(now, p, v, Some (delay (trades (instruments s 0) 1)))] else None)"
proof -
  obtain r s1 where g: "get_instrument fopen_ok inst s = (r, s1)"
    by (cases "get_instrument fopen_ok inst s")
  have l: "lookup_instrument s inst = None"
    using assms(1) by (simp add: lookup_None_iff)
  have lt: "num_instruments s < MAX_INSTRUMENTS" using assms by simp
  note n = get_instrument_new [OF l lt g] get_instrument_new_files [OF l lt g]
  have r: "r = Some 0" using n(1) assms(1) by simp
  have tc: "trade_count (instruments s1 0) < TRADE_BUFFER_SIZE"
    using n(4) assms(1) by (simp add: TRADE_BUFFER_SIZE_def)
  have "save_trade_item fopen_ok inst p v now current s =
     Inr (s1\<lparr>instruments := (instruments s1)(0 := append_trade (instruments s1 0) p v now current)\<rparr>)"
    using g r tc by (simp add: save_trade_item_append)
  moreover have "trans_file (append_trade (instruments s1 0) p v now current) =
         (if fopen_ok (take 127 (''data/'' @ inst) @ ''/transactions.csv'')
          then Some [(now, p, v, Some (delay (trades (instruments s 0) 1)))] else None)"
    using n(4,6,9) assms(1)
    by (simp add: append_trade_def Let_def fopen_w_def read_delay_def TRADE_BUFFER_SIZE_def)
  ultimately show ?thesis
    using n(2,4,6) assms(1) by (simp add: append_trade_fields)
qed

text \<open>
  The state after the first trade of a run is a state of a run with one instrument and a
  window of one trade; storing a trade in \<open>full_state\<close>, whose window is at capacity,
  returns \<open>full_state\<close>.
\<close>

theorem trade_window_capacity_witness:
  "(case save_trade_item (\<lambda>_. True) ''BTC-USDT'' 100 1 5 (11 / 2) init_state of
      Inr s \<Rightarrow> reachable s \<and> 0 < num_instruments s
                \<and> length (trade_window (instruments s 0)) = 1 \<and> 1 \<le> TRADE_BUFFER_SIZE
    | Inl e \<Rightarrow> False)
 \<and> lookup_instrument full_state ''BTC-USDT'' = Some 0
 \<and> trade_count (instruments full_state 0) = TRADE_BUFFER_SIZE
 \<and> save_trade_item (\<lambda>_. True) ''BTC-USDT'' 100 1 5 (11 / 2) full_state = Inr full_state"
proof -
  have n0: "num_instruments init_state = 0" by (simp add: init_state_def)
  have m: "0 < MAX_INSTRUMENTS" by (simp add: MAX_INSTRUMENTS_def)
  from first_trade [OF n0 m, of "\<lambda>_. True" "''BTC-USDT''" 100 1 5 "11 / 2"]
  obtain s where s: "save_trade_item (\<lambda>_. True) ''BTC-USDT'' 100 1 5 (11 / 2) init_state = Inr s"
    and n: "num_instruments s = 1" and c: "trade_count (instruments s 0) = 1"
    by blast
  have r: "reachable s" using reachable.start s by (rule reachable.trade)
  have i: "0 < num_instruments s" using n by simp
  from trade_window_capacity [of s 0 "''BTC-USDT''" 0 "\<lambda>_. True" 100 1 5 "11 / 2"] r i
  have "length (trade_window (instruments s 0)) \<le> TRADE_BUFFER_SIZE" by blast
  then have a: "reachable s \<and> 0 < num_instruments s
      \<and> length (trade_window (instruments s 0)) = 1 \<and> 1 \<le> TRADE_BUFFER_SIZE"
    using r i c by (simp add: trade_window_def)
  have f: "trade_count (instruments full_state 0) = TRADE_BUFFER_SIZE"
    by (simp add: full_state_def TRADE_BUFFER_SIZE_def)
  from trade_window_capacity [of full_state 0 "''BTC-USDT''" 0 "\<lambda>_. True" 100 1 5 "11 / 2"]
    lookup_full_state f
  have "save_trade_item (\<lambda>_. True) ''BTC-USDT'' 100 1 5 (11 / 2) full_state = Inr full_state"
    by blast
  with a s lookup_full_state f show ?thesis by simp
qed

text \<open>
  The delay in the transaction line of an appended trade is read from the slot after the
  one just written: it does not depend on the two clock readings.
\<close>

lemma logged_delay_next_slot:
  assumes "trans_file entry = Some f"
  shows "trans_file (append_trade entry p v now current) =
     Some (f @ [(now, p, v,
        if trade_count entry + 1 < TRADE_BUFFER_SIZE
        then Some (delay (trades entry (trade_count entry + 1))) else None)])"
  using assms by (simp add: append_trade_def Let_def read_delay_def)

lemma stored_delay:
  "delay (trades (append_trade entry p v now current) (trade_count entry)) = current - now"
  by (simp add: append_trade_fields)

text \<open>
  Claim C9. The first trade of a run, received at time 5 and appended at time 5.5, is stored
  with the delay 0.5. The line written to the transaction file carries the delay field of
  the slot after the one just written, which holds 0: the line is printed after
  \<^verbatim>\<open>trade_count\<close> is incremented. The claim asks for the delay of the stored trade.
\<close>

theorem first_trade_logged_delay:
  "(case save_trade_item (\<lambda>_. True) ''BTC-USDT'' 100 1 5 (11 / 2) init_state of
      Inr s \<Rightarrow> map delay (trade_window (instruments s 0)) = [1 / 2]
                \<and> trans_file (instruments s 0) = Some [(5, 100, 1, Some 0)]
    | Inl e \<Rightarrow> False)"
proof -
  have n0: "num_instruments init_state = 0" by (simp add: init_state_def)
  have m: "0 < MAX_INSTRUMENTS" by (simp add: MAX_INSTRUMENTS_def)
  have z: "trades (instruments init_state 0) = (\<lambda>_. zero_trade)"
    by (simp add: init_state_def zero_instrument_def)
  from first_trade [OF n0 m, of "\<lambda>_. True" "''BTC-USDT''" 100 1 5 "11 / 2"]
  obtain s where s: "save_trade_item (\<lambda>_. True) ''BTC-USDT'' 100 1 5 (11 / 2) init_state = Inr s"
    and t: "trades (instruments s 0) = (trades (instruments init_state 0))(0 :=
          \<lparr>timestamp = 5, price = 100, volume = 1, delay = 11 / 2 - 5\<rparr>)"
    and c: "trade_count (instruments s 0) = 1"
    and f: "trans_file (instruments s 0) =
         Some [(5, 100, 1, Some (delay (trades (instruments init_state 0) 1)))]"
    by auto
  show ?thesis
    using s t c f by (simp add: z trade_window_def zero_trade_def)
qed

lemma lookup_None_names: "lookup_instrument s name = None \<longleftrightarrow> name \<notin> set (names_of s)"
  by (auto simp: lookup_None_iff names_of_def)

lemma length_names_of [simp]: "length (names_of s) = num_instruments s"
  by (simp add: names_of_def)

lemma save_trade_item_new_id:
  assumes "inst \<notin> set (names_of s)" "num_instruments s < MAX_INSTRUMENTS" "length inst \<le> 15"
  shows "\<exists>s'. save_trade_item fopen_ok inst p v now current s = Inr s'
            \<and> names_of s' = names_of s @ [inst]"
proof -
  obtain r s1 where g: "get_instrument fopen_ok inst s = (r, s1)"
    by (cases "get_instrument fopen_ok inst s")
  have l: "lookup_instrument s inst = None"
    using assms(1) by (simp add: lookup_None_names)
  note n = get_instrument_new [OF l assms(2) g]
  let ?n = "num_instruments s"
  have tc: "trade_count (instruments s1 ?n) < TRADE_BUFFER_SIZE"
    using n(4) by (simp add: TRADE_BUFFER_SIZE_def)
  let ?s' = "s1\<lparr>instruments := (instruments s1)(?n :=
               append_trade (instruments s1 ?n) p v now current)\<rparr>"
  have e: "save_trade_item fopen_ok inst p v now current s = Inr ?s'"
    using g n(1) tc by (simp add: save_trade_item_append)
  have "map (\<lambda>i. instrument (instruments ?s' i)) [0..<?n] =
        map (\<lambda>i. instrument (instruments s i)) [0..<?n]"
    by (rule map_cong) (simp_all add: n(7))
  then have "names_of ?s' = names_of s @ [inst]"
    using n(2,3) assms(3) by (simp add: names_of_def append_trade_fields)
  with e show ?thesis by blast
qed

lemma save_trade_append:
  "save_trade fopen_ok (xs @ ys) s =
     (case save_trade fopen_ok xs s of Inl e \<Rightarrow> Inl e | Inr s' \<Rightarrow> save_trade fopen_ok ys s')"
  by (induction fopen_ok xs s rule: save_trade.induct) (auto split: sum.splits)

lemma save_trade_event_for:
  "save_trade fopen_ok (event_for name # es) s =
     (case save_trade_item fopen_ok name 100 1 5 (11 / 2) s of
        Inl err \<Rightarrow> Inl err | Inr s' \<Rightarrow> save_trade fopen_ok es s')"
  by (simp add: event_for_def)

lemma save_trade_distinct_ids:
  assumes "distinct names" "set names \<inter> set (names_of s) = {}"
    and "\<forall>n\<in>set names. length n \<le> 15"
    and "num_instruments s + length names \<le> MAX_INSTRUMENTS"
  shows "\<exists>s'. save_trade fopen_ok (map event_for names) s = Inr s'
            \<and> names_of s' = names_of s @ names"
  using assms
proof (induction names arbitrary: s)
  case Nil
  show ?case by simp
next
  case (Cons a names)
  from Cons.prems have "a \<notin> set (names_of s)" "num_instruments s < MAX_INSTRUMENTS"
    "length a \<le> 15"
    by auto
  from save_trade_item_new_id [OF this, of fopen_ok 100 1 5 "11 / 2"]
  obtain s1 where s1: "save_trade_item fopen_ok a 100 1 5 (11 / 2) s = Inr s1"
    and n1: "names_of s1 = names_of s @ [a]"
    by blast
  have len: "num_instruments s1 = num_instruments s + 1"
    using arg_cong [OF n1, of length] by simp
  have "\<exists>s'. save_trade fopen_ok (map event_for names) s1 = Inr s'
            \<and> names_of s' = names_of s1 @ names"
    using Cons.prems by (intro Cons.IH) (auto simp: n1 len)
  then show ?case
    by (auto simp: save_trade_event_for s1 n1)
qed

lemma save_trade_item_table_full:
  assumes "inst \<notin> set (names_of s)" "num_instruments s = MAX_INSTRUMENTS"
  shows "save_trade_item fopen_ok inst p v now current s = Inl NullPointerDereference"
proof -
  have "lookup_instrument s inst = None"
    using assms(1) by (simp add: lookup_None_names)
  then have "fst (get_instrument fopen_ok inst s) = None"
    using assms(2) by (simp add: get_instrument_full)
  then show ?thesis by (rule save_trade_item_null)
qed

text \<open>
  Claim C8. After one trade for each of the eight subscribed ids the table holds the eight
  ids. For a ninth id \<^verbatim>\<open>get_instrument\<close> returns the null pointer and changes nothing but
  \<^verbatim>\<open>stderr\<close>; \<^verbatim>\<open>save_trade\<close> then dereferences the null pointer in the \<^verbatim>\<open>printf\<close> after the
  unlock, so the run does not go on to drop later trades of that id as the claim says.
\<close>

theorem ninth_identity_null_dereference:
  "(case save_trade (\<lambda>_. True) (map event_for (take 8 nine_ids)) init_state of
      Inr s \<Rightarrow> names_of s = take 8 nine_ids
              \<and> get_instrument (\<lambda>_. True) ''TRX-USDT'' s
                  = (None, s\<lparr>stderr_out := stderr_out s @ [''Too many instruments!'']\<rparr>)
              \<and> save_trade_item (\<lambda>_. True) ''TRX-USDT'' 100 1 5 (11 / 2) s
                  = Inl NullPointerDereference
    | Inl e \<Rightarrow> False)
 \<and> save_trade (\<lambda>_. True) (map event_for nine_ids) init_state = Inl NullPointerDereference"
proof -
  have n0: "names_of init_state = []" by (simp add: names_of_def init_state_def)
  have num0: "num_instruments init_state = 0" by (simp add: init_state_def)
  have "\<exists>s'. save_trade (\<lambda>_. True) (map event_for (take 8 nine_ids)) init_state = Inr s'
            \<and> names_of s' = names_of init_state @ take 8 nine_ids"
    by (rule save_trade_distinct_ids)
      (simp_all add: nine_ids_def n0 num0 MAX_INSTRUMENTS_def)
  then obtain s where s: "save_trade (\<lambda>_. True) (map event_for (take 8 nine_ids)) init_state = Inr s"
    and n: "names_of s = take 8 nine_ids"
    by (auto simp: n0)
  have num: "num_instruments s = MAX_INSTRUMENTS"
    using arg_cong [OF n, of length] by (simp add: nine_ids_def MAX_INSTRUMENTS_def)
  have notin: "''TRX-USDT'' \<notin> set (names_of s)"
    by (simp add: n nine_ids_def)
  have l: "lookup_instrument s ''TRX-USDT'' = None"
    using notin by (simp add: lookup_None_names)
  have g: "get_instrument (\<lambda>_. True) ''TRX-USDT'' s
                  = (None, s\<lparr>stderr_out := stderr_out s @ [''Too many instruments!'']\<rparr>)"
    using l num by (simp add: get_instrument_full)
  have d: "save_trade_item (\<lambda>_. True) ''TRX-USDT'' 100 1 5 (11 / 2) s = Inl NullPointerDereference"
    using notin num by (rule save_trade_item_table_full)
  have split: "nine_ids = take 8 nine_ids @ [''TRX-USDT'']"
    by (simp add: nine_ids_def)
  have "save_trade (\<lambda>_. True) (map event_for (take 8 nine_ids @ [''TRX-USDT''])) init_state
          = Inl NullPointerDereference"
    by (simp add: save_trade_append s save_trade_event_for d)
  then have "save_trade (\<lambda>_. True) (map event_for nine_ids) init_state = Inl NullPointerDereference"
    using split by simp
  then show ?thesis
    using s n g d by simp
qed

text \<open>Trades with an id of more than 15 characters.\<close>

lemma save_trade_item_long_id:
  assumes "table_ok s" "15 < length inst" "num_instruments s < MAX_INSTRUMENTS"
  shows "\<exists>s'. save_trade_item fopen_ok inst p v now current s = Inr s'
            \<and> names_of s' = names_of s @ [take 15 inst] \<and> table_ok s'"
proof -
  obtain r s1 where g: "get_instrument fopen_ok inst s = (r, s1)"
    by (cases "get_instrument fopen_ok inst s")
  have l: "lookup_instrument s inst = None"
    using assms(1,2) by (rule long_id_lookup)
  note n = get_instrument_new [OF l assms(3) g]
  let ?n = "num_instruments s"
  have tc: "trade_count (instruments s1 ?n) < TRADE_BUFFER_SIZE"
    using n(4) by (simp add: TRADE_BUFFER_SIZE_def)
  let ?s' = "s1\<lparr>instruments := (instruments s1)(?n :=
               append_trade (instruments s1 ?n) p v now current)\<rparr>"
  have e: "save_trade_item fopen_ok inst p v now current s = Inr ?s'"
    using g n(1) tc by (simp add: save_trade_item_append)
  have "map (\<lambda>i. instrument (instruments ?s' i)) [0..<?n] =
        map (\<lambda>i. instrument (instruments s i)) [0..<?n]"
    by (rule map_cong) (simp_all add: n(7))
  then have "names_of ?s' = names_of s @ [take 15 inst]"
    using n(2,3) by (simp add: names_of_def append_trade_fields)
  moreover have "table_ok ?s'"
    using assms(1) e by (rule save_trade_item_table_ok)
  ultimately show ?thesis using e by blast
qed

lemma save_trade_long_id_repeated:
  assumes "table_ok s" "15 < length inst" "num_instruments s + k \<le> MAX_INSTRUMENTS"
  shows "\<exists>s'. save_trade fopen_ok (replicate k (event_for inst)) s = Inr s'
            \<and> names_of s' = names_of s @ replicate k (take 15 inst) \<and> table_ok s'"
  using assms(1,3)
proof (induction k arbitrary: s)
  case 0
  then show ?case by simp
next
  case (Suc k)
  from Suc.prems have lt: "num_instruments s < MAX_INSTRUMENTS" by simp
  from save_trade_item_long_id [OF Suc.prems(1) assms(2) lt, of fopen_ok 100 1 5 "11 / 2"]
  obtain s1 where s1: "save_trade_item fopen_ok inst 100 1 5 (11 / 2) s = Inr s1"
    and n1: "names_of s1 = names_of s @ [take 15 inst]" and ok1: "table_ok s1"
    by blast
  have len: "num_instruments s1 = num_instruments s + 1"
    using arg_cong [OF n1, of length] by simp
  have "num_instruments s1 + k \<le> MAX_INSTRUMENTS"
    using Suc.prems(2) len by simp
  from Suc.IH [OF ok1 this]
  obtain s' where "save_trade fopen_ok (replicate k (event_for inst)) s1 = Inr s'"
    and "names_of s' = names_of s1 @ replicate k (take 15 inst)" and "table_ok s'"
    by blast
  then show ?case
    by (simp add: save_trade_event_for s1 n1 replicate_app_Cons_same)
qed

text \<open>
  Claim C10. Eight trades with the 16-character id \<open>BTC-USDT-SWAP-01\<close> fill the eight
  slots of the table, each with the 15-character prefix: no call matches the entry an
  earlier call created. For the ninth trade the lookup fails again, \<^verbatim>\<open>get_instrument\<close>
  returns the null pointer and \<^verbatim>\<open>save_trade\<close> dereferences it in the \<^verbatim>\<open>printf\<close> after the
  unlock, where the claim has the trade rejected.
\<close>

theorem long_id_ninth_trade_null_dereference:
  "(case save_trade (\<lambda>_. True) (replicate 8 (event_for ''BTC-USDT-SWAP-01'')) init_state of
      Inr s \<Rightarrow> names_of s = replicate 8 ''BTC-USDT-SWAP-0''
              \<and> lookup_instrument s ''BTC-USDT-SWAP-01'' = None
              \<and> get_instrument (\<lambda>_. True) ''BTC-USDT-SWAP-01'' s
                  = (None, s\<lparr>stderr_out := stderr_out s @ [''Too many instruments!'']\<rparr>)
              \<and> save_trade_item (\<lambda>_. True) ''BTC-USDT-SWAP-01'' 100 1 5 (11 / 2) s
                  = Inl NullPointerDereference
    | Inl e \<Rightarrow> False)
 \<and> save_trade (\<lambda>_. True) (replicate 9 (event_for ''BTC-USDT-SWAP-01'')) init_state
      = Inl NullPointerDereference"
proof -
  let ?id = "''BTC-USDT-SWAP-01''"
  have n0: "names_of init_state = []" by (simp add: names_of_def init_state_def)
  have num0: "num_instruments init_state = 0" by (simp add: init_state_def)
  have len: "15 < length ?id" by simp
  have "num_instruments init_state + 8 \<le> MAX_INSTRUMENTS"
    by (simp add: num0 MAX_INSTRUMENTS_def)
  from save_trade_long_id_repeated [OF table_ok_init len this, of "\<lambda>_. True"]
  obtain s where s: "save_trade (\<lambda>_. True) (replicate 8 (event_for ?id)) init_state = Inr s"
    and n: "names_of s = replicate 8 (take 15 ?id)" and ok: "table_ok s"
    by (auto simp: n0)
  have n': "names_of s = replicate 8 ''BTC-USDT-SWAP-0''"
    using n by simp
  have num: "num_instruments s = MAX_INSTRUMENTS"
    using arg_cong [OF n, of length] by (simp add: MAX_INSTRUMENTS_def)
  have l: "lookup_instrument s ?id = None"
    using ok len by (rule long_id_lookup)
  have g: "get_instrument (\<lambda>_. True) ?id s
      = (None, s\<lparr>stderr_out := stderr_out s @ [''Too many instruments!'']\<rparr>)"
    using l num by (simp add: get_instrument_full)
  have d: "save_trade_item (\<lambda>_. True) ?id 100 1 5 (11 / 2) s = Inl NullPointerDereference"
    by (rule save_trade_item_null) (simp add: g)
  have "replicate 9 (event_for ?id) = replicate 8 (event_for ?id) @ [event_for ?id]"
    by (simp add: numeral_eq_Suc replicate_append_same)
  then have "save_trade (\<lambda>_. True) (replicate 9 (event_for ?id)) init_state
      = Inl NullPointerDereference"
    by (simp only: save_trade_append s sum.case save_trade_event_for d)
  then show ?thesis
    using s n' l g d by simp
qed

subsection \<open>The Pearson coefficient in exact arithmetic\<close>

lemma pearson_sums_eq:
  "pearson_sums v1 v2 n = (\<Sum>i<n. v1 i, \<Sum>i<n. v2 i)"
  by (induction n) (simp_all add: pearson_sums_def)

lemma pearson_products_eq:
  "pearson_products v1 v2 m1 m2 n =
     (\<Sum>i<n. (v1 i - m1) * (v2 i - m2), \<Sum>i<n. (v1 i - m1) * (v1 i - m1),
      \<Sum>i<n. (v2 i - m2) * (v2 i - m2))"
  by (induction n) (simp_all add: pearson_products_def Let_def)

text \<open>The function in closed form, for \<open>n\<close> at least 2.\<close>

lemma pearson_corr_vector_eq:
  assumes "2 \<le> n"
  shows "pearson_corr_vector v1 v2 (int n) =
     (let num = (\<Sum>i<n. (v1 i - vmean v1 n) * (v2 i - vmean v2 n));
          den1 = (\<Sum>i<n. (v1 i - vmean v1 n) * (v1 i - vmean v1 n));
          den2 = (\<Sum>i<n. (v2 i - vmean v2 n) * (v2 i - vmean v2 n))
      in if den1 = 0 \<or> den2 = 0 then None else Some (num / sqrt (den1 * den2)))"
  using assms
  by (simp add: pearson_corr_vector_def pearson_sums_eq pearson_products_eq Let_def vmean_def)


lemma cauchy_schwarz_sum:
  fixes a b :: "nat \<Rightarrow> real"
  shows "(\<Sum>i<n. a i * b i)^2 \<le> (\<Sum>i<n. a i * a i) * (\<Sum>i<n. b i * b i)"
proof -
  define A where "A = (\<Sum>i<n. a i * a i)"
  define B where "B = (\<Sum>i<n. b i * b i)"
  define C where "C = (\<Sum>i<n. a i * b i)"
  have A0: "0 \<le> A" unfolding A_def by (rule sum_nonneg) simp
  have B0: "0 \<le> B" unfolding B_def by (rule sum_nonneg) simp
  show ?thesis
  proof (cases "A = 0")
    case True
    then have "\<forall>i\<in>{..<n}. a i * a i = 0"
      unfolding A_def by (subst (asm) sum_nonneg_eq_0_iff) simp_all
    then have "C = 0"
      unfolding C_def by (intro sum.neutral) simp
    then show ?thesis
      using A0 B0 by (simp add: A_def [symmetric] B_def [symmetric] C_def [symmetric])
  next
    case False
    with A0 have Apos: "0 < A" by simp
    have pt: "(A * b i - C * a i)^2 = A^2 * (b i * b i) - 2 * A * C * (a i * b i) + C^2 * (a i * a i)"
      for i
      by (simp add: power2_eq_square algebra_simps)
    have "0 \<le> (\<Sum>i<n. (A * b i - C * a i)^2)"
      by (rule sum_nonneg) simp
    also have "\<dots> = A^2 * B - 2 * A * C * C + C^2 * A"
      by (simp add: pt sum.distrib sum_subtractf sum_distrib_left [symmetric] A_def [symmetric]
          B_def [symmetric] C_def [symmetric])
    also have "\<dots> = A * (A * B - C^2)"
      by (simp add: power2_eq_square algebra_simps)
    finally have "0 \<le> A * B - C^2"
      using Apos by (simp add: zero_le_mult_iff)
    then show ?thesis
      by (simp add: A_def B_def C_def)
  qed
qed

lemma pearson_range:
  assumes "pearson_corr_vector v1 v2 (int n) = Some r"
  shows "- 1 \<le> r \<and> r \<le> 1"
proof -
  have n: "2 \<le> n"
    using assms by (auto simp: pearson_corr_vector_def split: if_splits)
  define a where "a = (\<lambda>i. v1 i - vmean v1 n)"
  define b where "b = (\<lambda>i. v2 i - vmean v2 n)"
  define A where "A = (\<Sum>i<n. a i * a i)"
  define B where "B = (\<Sum>i<n. b i * b i)"
  define C where "C = (\<Sum>i<n. a i * b i)"
  have e: "pearson_corr_vector v1 v2 (int n) =
      (if A = 0 \<or> B = 0 then None else Some (C / sqrt (A * B)))"
    by (simp add: pearson_corr_vector_eq [OF n] Let_def A_def B_def C_def a_def b_def)
  from assms e have nz: "A \<noteq> 0" "B \<noteq> 0" and r: "r = C / sqrt (A * B)"
    by (auto split: if_splits)
  have "0 \<le> A" "0 \<le> B"
    unfolding A_def B_def by (rule sum_nonneg, simp)+
  with nz have pos: "0 < A * B" by simp
  have "C^2 \<le> A * B"
    unfolding A_def B_def C_def by (rule cauchy_schwarz_sum)
  then have "\<bar>C\<bar> \<le> sqrt (A * B)"
    by (rule real_le_rsqrt [of "\<bar>C\<bar>", simplified])
  moreover have "0 < sqrt (A * B)" using pos by simp
  ultimately have "\<bar>C / sqrt (A * B)\<bar> \<le> 1"
    by (simp add: abs_divide)
  then show ?thesis
    unfolding r by linarith
qed


lemma lessThan_8: "{..<8::nat} = {0, 1, 2, 3, 4, 5, 6, 7}"
  by auto

subsection \<open>The Pearson coefficient in double arithmetic\<close>

lemma pow2_powr: "pow2 e = 2 powr of_int e"
  by (simp add: pow2_def powr_int)

lemma pow2_pos [simp]: "0 < pow2 e"
  by (simp add: pow2_powr)

lemma pow2_abs [simp]: "\<bar>pow2 e\<bar> = pow2 e"
  by (simp add: pow2_powr)

lemma pow2_not_le_0 [simp]: "\<not> pow2 e \<le> 0"
  by (simp add: not_le)

lemma pow2_neq_0 [simp]: "pow2 e \<noteq> 0"
  using pow2_pos [of e] by linarith

















lemma to_double_0 [simp]: "to_double 0 = Fin 0"
  by (simp add: to_double_def rd_def)


















subsection \<open>The best peer\<close>

lemma corr_step_self: "j = index ct \<Longrightarrow> corr_step ct j l = l"
  by (simp add: corr_step_def)

lemma corr_step_nan: "peer_corr ct j = None \<Longrightarrow> corr_step ct j l = l"
  by (simp add: corr_step_def peer_corr_def Let_def)

lemma corr_step_keep:
  "peer_corr ct j = Some c \<Longrightarrow> \<not> c > l_max_corr l \<Longrightarrow> corr_step ct j l = l"
  by (simp add: corr_step_def peer_corr_def Let_def)

lemma corr_step_take:
  assumes "j \<noteq> index ct" "peer_corr ct j = Some c" "c > l_max_corr l"
  shows "l_max_corr (corr_step ct j l) = c"
    and "l_max_sym (corr_step ct j l) = take 15 (cd_instrument (data ct j))"
  using assms by (simp_all add: corr_step_def peer_corr_def Let_def split_beta)

lemma peer_corr_range:
  assumes "peer_corr ct j = Some r"
  shows "- 1 \<le> r \<and> r \<le> 1"
  using assms pearson_range [of _ _ MA_HISTORY_SIZE r] by (simp add: peer_corr_def)

lemma no_finite_peer_Suc:
  "no_finite_peer ct (Suc n) \<longleftrightarrow>
     no_finite_peer ct n \<and> (n \<noteq> index ct \<longrightarrow> peer_corr ct n = None)"
  by (auto simp: no_finite_peer_def less_Suc_eq)

lemma best_peer_extend:
  assumes "best_peer ct n j r"
    and "n = index ct \<or> (case peer_corr ct n of None \<Rightarrow> True | Some r' \<Rightarrow> r' \<le> r)"
  shows "best_peer ct (Suc n) j r"
  using assms unfolding best_peer_def by (auto simp: less_Suc_eq)

lemma best_peer_new:
  assumes "n \<noteq> index ct" "peer_corr ct n = Some c"
    and "no_finite_peer ct n \<or> (\<exists>j r. best_peer ct n j r \<and> r < c)"
  shows "best_peer ct (Suc n) n c"
proof -
  have lt: "case peer_corr ct k of None \<Rightarrow> True | Some r' \<Rightarrow> r' < c"
    if "k < n" "k \<noteq> index ct" for k
    using assms(3)
  proof
    assume "no_finite_peer ct n"
    with that show ?thesis by (simp add: no_finite_peer_def)
  next
    assume "\<exists>j r. best_peer ct n j r \<and> r < c"
    then obtain j r where b: "best_peer ct n j r" and lt: "r < c" by blast
    from b that have "case peer_corr ct k of None \<Rightarrow> True | Some r' \<Rightarrow> r' \<le> r"
      by (simp add: best_peer_def)
    with lt show ?thesis by (auto split: option.splits)
  qed
  have le: "case peer_corr ct k of None \<Rightarrow> True | Some r' \<Rightarrow> r' \<le> c"
    if "k < Suc n" "k \<noteq> index ct" for k
  proof (cases "k = n")
    case True
    with assms(2) show ?thesis by simp
  next
    case False
    with that have "k < n" by simp
    from lt [OF this that(2)] show ?thesis by (auto split: option.splits)
  qed
  show ?thesis
    unfolding best_peer_def using assms(1,2) lt le by simp
qed

lemma selection_extend:
  assumes "(no_finite_peer ct n \<and> L = corr_locals_init)
       \<or> (\<exists>j. best_peer ct n j (l_max_corr L)
              \<and> l_max_sym L = take 15 (cd_instrument (data ct j)))"
    and "n = index ct \<or> peer_corr ct n = None"
  shows "(no_finite_peer ct (Suc n) \<and> L = corr_locals_init)
       \<or> (\<exists>j. best_peer ct (Suc n) j (l_max_corr L)
              \<and> l_max_sym L = take 15 (cd_instrument (data ct j)))"
  using assms(1)
proof
  assume "no_finite_peer ct n \<and> L = corr_locals_init"
  with assms(2) show ?thesis by (auto simp: no_finite_peer_Suc)
next
  assume "\<exists>j. best_peer ct n j (l_max_corr L)
              \<and> l_max_sym L = take 15 (cd_instrument (data ct j))"
  then obtain j where b: "best_peer ct n j (l_max_corr L)"
    and s: "l_max_sym L = take 15 (cd_instrument (data ct j))"
    by blast
  from assms(2)
  have "n = index ct \<or> (case peer_corr ct n of None \<Rightarrow> True | Some r' \<Rightarrow> r' \<le> l_max_corr L)"
    by auto
  with b have "best_peer ct (Suc n) j (l_max_corr L)" by (rule best_peer_extend)
  with s show ?thesis by blast
qed

lemma corr_fold_selection:
  fixes ct :: corr_thread_arg_t and n :: nat
  defines "l \<equiv> fold (corr_step ct) [0..<n] corr_locals_init"
  shows "(no_finite_peer ct n \<and> l = corr_locals_init)
       \<or> (\<exists>j. best_peer ct n j (l_max_corr l)
              \<and> l_max_sym l = take 15 (cd_instrument (data ct j)))"
  unfolding l_def
proof (induction n)
  case 0
  show ?case by (simp add: no_finite_peer_def)
next
  case (Suc n)
  define L where "L = fold (corr_step ct) [0..<n] corr_locals_init"
  have step: "fold (corr_step ct) [0..<Suc n] corr_locals_init = corr_step ct n L"
    by (simp add: L_def)
  note IH = Suc [folded L_def]
  show ?case
    unfolding step
  proof (cases "n = index ct")
    case True
    then have same: "corr_step ct n L = L" by (rule corr_step_self)
    from IH show "(no_finite_peer ct (Suc n) \<and> corr_step ct n L = corr_locals_init)
       \<or> (\<exists>j. best_peer ct (Suc n) j (l_max_corr (corr_step ct n L))
              \<and> l_max_sym (corr_step ct n L) = take 15 (cd_instrument (data ct j)))"
      unfolding same using True
      by (intro selection_extend) simp_all
  next
    case False
    show "(no_finite_peer ct (Suc n) \<and> corr_step ct n L = corr_locals_init)
       \<or> (\<exists>j. best_peer ct (Suc n) j (l_max_corr (corr_step ct n L))
              \<and> l_max_sym (corr_step ct n L) = take 15 (cd_instrument (data ct j)))"
    proof (cases "peer_corr ct n")
      case None
      then have same: "corr_step ct n L = L" by (rule corr_step_nan)
      from IH show ?thesis
        unfolding same using None
        by (intro selection_extend) simp_all
    next
      case (Some c)
      show ?thesis
      proof (cases "c > l_max_corr L")
        case True
        note t = corr_step_take [OF False Some True]
        have "no_finite_peer ct n \<or> (\<exists>j r. best_peer ct n j r \<and> r < c)"
          using IH True by auto
        then have "best_peer ct (Suc n) n c"
          by (rule best_peer_new [OF False Some])
        then show ?thesis
          using t by auto
      next
        case keep: False
        then have same: "corr_step ct n L = L"
          using Some by (simp add: corr_step_keep)
        from IH show ?thesis
        proof
          assume a: "no_finite_peer ct n \<and> L = corr_locals_init"
          then have "l_max_corr L = - 2" by (simp add: corr_locals_init_def)
          with keep peer_corr_range [OF Some] show ?thesis by simp
        next
          assume "\<exists>j. best_peer ct n j (l_max_corr L)
              \<and> l_max_sym L = take 15 (cd_instrument (data ct j))"
          then obtain j where b: "best_peer ct n j (l_max_corr L)"
            and s: "l_max_sym L = take 15 (cd_instrument (data ct j))"
            by blast
          from keep Some
          have "n = index ct \<or> (case peer_corr ct n of None \<Rightarrow> True | Some r' \<Rightarrow> r' \<le> l_max_corr L)"
            by simp
          with b have "best_peer ct (Suc n) j (l_max_corr L)" by (rule best_peer_extend)
          with s show ?thesis
            unfolding same by blast
        qed
      qed
    qed
  qed
qed

lemma all_nan_loop:
  assumes "no_finite_peer ct (total_n ct)"
  shows "corr_loop ct = corr_locals_init"
proof -
  from corr_fold_selection [of ct "total_n ct", folded corr_loop_def]
  show ?thesis
  proof
    assume "no_finite_peer ct (total_n ct) \<and> corr_loop ct = corr_locals_init"
    then show ?thesis by simp
  next
    assume "\<exists>j. best_peer ct (total_n ct) j (l_max_corr (corr_loop ct))
              \<and> l_max_sym (corr_loop ct) = take 15 (cd_instrument (data ct j))"
    then obtain j where "j < total_n ct" "j \<noteq> index ct" "peer_corr ct j \<noteq> None"
      by (auto simp: best_peer_def)
    with assms show ?thesis by (simp add: no_finite_peer_def)
  qed
qed

lemma loop_sym_short: "take 15 (l_max_sym (corr_loop ct)) = l_max_sym (corr_loop ct)"
  using corr_fold_selection [of ct "total_n ct", folded corr_loop_def]
  by (auto simp: corr_locals_init_def)

lemma compute_corr_thread_result:
  "max_corr_symbol (instruments (compute_corr_thread ct s) (global_index (data ct (index ct))))
     = l_max_sym (corr_loop ct)"
  "max_corr (instruments (compute_corr_thread ct s) (global_index (data ct (index ct))))
     = l_max_corr (corr_loop ct)"
  "max_corr_time (instruments (compute_corr_thread ct s) (global_index (data ct (index ct))))
     = current_time ct"
  "max_corr_ma_time (instruments (compute_corr_thread ct s) (global_index (data ct (index ct))))
     = l_max_ma_time (corr_loop ct)"
  by (simp_all add: compute_corr_thread_def Let_def loop_sym_short split: option.splits)

lemma corr_step_changes:
  assumes "l_max_corr (corr_step ct j l) \<noteq> l_max_corr l"
  shows "\<exists>c. peer_corr ct j = Some c \<and> c > l_max_corr l \<and> l_max_corr (corr_step ct j l) = c"
proof (cases "j = index ct")
  case True
  with assms show ?thesis by (simp add: corr_step_self)
next
  case False
  show ?thesis
  proof (cases "peer_corr ct j")
    case None
    with assms show ?thesis by (simp add: corr_step_nan)
  next
    case (Some c)
    show ?thesis
    proof (cases "c > l_max_corr l")
      case True
      with corr_step_take(1) [OF False Some True] Some show ?thesis by simp
    next
      case False
      with assms Some show ?thesis by (simp add: corr_step_keep)
    qed
  qed
qed

text \<open>
  Claim C7. The loop of a correlation thread ends in one of two ways. Either no peer has a
  finite correlation and the locals still hold their initial values; or the tracked
  correlation is the finite correlation of a peer \<open>j\<close>, no peer has a greater finite one,
  every peer that comes before \<open>j\<close> in the snapshot has a smaller one or NaN (so of two
  peers with the same maximal correlation the first is kept), and the tracked symbol is the
  name of \<open>j\<close>. A peer whose correlation is NaN is never \<open>j\<close>. The symbol and the
  correlation written to the instrument are the tracked ones.
\<close>

theorem best_peer_selection:
  "((no_finite_peer ct (total_n ct) \<and> corr_loop ct = corr_locals_init)
    \<or> (\<exists>j. best_peer ct (total_n ct) j (l_max_corr (corr_loop ct))
           \<and> l_max_sym (corr_loop ct) = take 15 (cd_instrument (data ct j))))
 \<and> max_corr_symbol (instruments (compute_corr_thread ct s) (global_index (data ct (index ct))))
     = l_max_sym (corr_loop ct)
 \<and> max_corr (instruments (compute_corr_thread ct s) (global_index (data ct (index ct))))
     = l_max_corr (corr_loop ct)"
  using corr_fold_selection [of ct "total_n ct", folded corr_loop_def]
  by (simp add: compute_corr_thread_result)

text \<open>
  Claim C1, as the code has it. A correlation thread always overwrites the four fields of
  its instrument: the time with the time of the cycle, the symbol, the correlation and the
  time of the contributing entry with the results of its own loop. When no peer has a
  finite correlation these are the initial values of the loop: the symbol \<open>N/A\<close>, the
  correlation -2 and the time 0, whatever the instrument held before. Inside the loop the
  tracked correlation changes only to a strictly greater finite correlation.
\<close>

theorem all_nan_resets_best_peer:
  "max_corr_time (instruments (compute_corr_thread ct s) (global_index (data ct (index ct))))
     = current_time ct
 \<and> max_corr (instruments (compute_corr_thread ct s) (global_index (data ct (index ct))))
     = l_max_corr (corr_loop ct)
 \<and> max_corr_symbol (instruments (compute_corr_thread ct s) (global_index (data ct (index ct))))
     = l_max_sym (corr_loop ct)
 \<and> max_corr_ma_time (instruments (compute_corr_thread ct s) (global_index (data ct (index ct))))
     = l_max_ma_time (corr_loop ct)
 \<and> (no_finite_peer ct (total_n ct) \<longrightarrow>
       max_corr_symbol (instruments (compute_corr_thread ct s) (global_index (data ct (index ct))))
         = ''N/A''
     \<and> max_corr (instruments (compute_corr_thread ct s) (global_index (data ct (index ct))))
         = - 2
     \<and> max_corr_ma_time (instruments (compute_corr_thread ct s) (global_index (data ct (index ct))))
         = 0)
 \<and> (\<forall>j l. l_max_corr (corr_step ct j l) \<noteq> l_max_corr l \<longrightarrow>
       (\<exists>c. peer_corr ct j = Some c \<and> c > l_max_corr l \<and> l_max_corr (corr_step ct j l) = c))"
proof -
  have "no_finite_peer ct (total_n ct) \<longrightarrow>
       l_max_sym (corr_loop ct) = ''N/A'' \<and> l_max_corr (corr_loop ct) = - 2
     \<and> l_max_ma_time (corr_loop ct) = 0"
    by (auto simp: all_nan_loop corr_locals_init_def)
  then show ?thesis
    using corr_step_changes [of ct] by (simp add: compute_corr_thread_result)
qed

lemma ma_values_snapshot:
  "ma (data ct j) = ramp_history a b \<Longrightarrow> ma_values ct j = (\<lambda>k. a * real k + b)"
  by (simp add: ma_values_def ramp_history_def)

lemma ramp_mean: "vmean (\<lambda>k. a * real k + b) 8 = 7 / 2 * a + b"
  by (simp add: vmean_def lessThan_8 algebra_simps)

lemma ramp_products:
  "(\<Sum>k<8. (a * real k + b - (7 / 2 * a + b)) * (c * real k + d - (7 / 2 * c + d))) = 42 * a * c"
  by (simp add: lessThan_8 algebra_simps)

lemma ramp_corr:
  "pearson_corr_vector (\<lambda>k. a * real k + b) (\<lambda>k. c * real k + d) 8 =
     (if a = 0 \<or> c = 0 then None else Some (42 * a * c / sqrt (42 * a * a * (42 * c * c))))"
proof -
  have e: "pearson_corr_vector (\<lambda>k. a * real k + b) (\<lambda>k. c * real k + d) 8 =
      pearson_corr_vector (\<lambda>k. a * real k + b) (\<lambda>k. c * real k + d) (int 8)"
    by simp
  have le: "2 \<le> (8::nat)" by simp
  have "pearson_corr_vector (\<lambda>k. a * real k + b) (\<lambda>k. c * real k + d) 8 =
     (if 42 * a * a = 0 \<or> 42 * c * c = 0 then None
      else Some (42 * a * c / sqrt (42 * a * a * (42 * c * c))))"
    unfolding e pearson_corr_vector_eq [OF le] Let_def ramp_mean ramp_products ..
  then show ?thesis by simp
qed

lemma sqrt_7056: "sqrt 7056 = 84"
  by (rule real_sqrt_unique) simp_all

lemma sqrt_15876: "sqrt 15876 = 126"
  by (rule real_sqrt_unique) simp_all

lemma tie_arg_corrs:
  "peer_corr tie_arg 1 = None" "peer_corr tie_arg 2 = Some 1" "peer_corr tie_arg 3 = Some 1"
proof -
  have v0: "ma_values tie_arg (index tie_arg) = (\<lambda>k. 1 * real k + 1)"
    by (rule ma_values_snapshot) (simp add: tie_arg_def snapshot_entry_def)
  have v1: "ma_values tie_arg 1 = (\<lambda>k. 0 * real k + 5)"
    by (rule ma_values_snapshot) (simp add: tie_arg_def snapshot_entry_def)
  have v2: "ma_values tie_arg 2 = (\<lambda>k. 2 * real k + 7)"
    by (rule ma_values_snapshot) (simp add: tie_arg_def snapshot_entry_def)
  have v3: "ma_values tie_arg 3 = (\<lambda>k. 3 * real k + 1)"
    by (rule ma_values_snapshot) (simp add: tie_arg_def snapshot_entry_def)
  show "peer_corr tie_arg 1 = None"
    unfolding peer_corr_def v0 v1 MA_HISTORY_SIZE_def using ramp_corr [of 1 1 0 5] by simp
  show "peer_corr tie_arg 2 = Some 1"
    unfolding peer_corr_def v0 v2 MA_HISTORY_SIZE_def using ramp_corr [of 1 1 2 7]
    by (simp add: sqrt_7056)
  show "peer_corr tie_arg 3 = Some 1"
    unfolding peer_corr_def v0 v3 MA_HISTORY_SIZE_def using ramp_corr [of 1 1 3 1]
    by (simp add: sqrt_15876)
qed

lemma nan_arg_corr: "peer_corr nan_arg 1 = None"
proof -
  have v0: "ma_values nan_arg (index nan_arg) = (\<lambda>k. 0 * real k + 5)"
    by (rule ma_values_snapshot) (simp add: nan_arg_def snapshot_entry_def)
  have v1: "ma_values nan_arg 1 = (\<lambda>k. 1 * real k + 1)"
    by (rule ma_values_snapshot) (simp add: nan_arg_def snapshot_entry_def)
  show ?thesis
    unfolding peer_corr_def v0 v1 MA_HISTORY_SIZE_def using ramp_corr [of 0 5 1 1] by simp
qed

lemma nan_arg_no_finite_peer: "no_finite_peer nan_arg (total_n nan_arg)"
proof -
  have "k = 0 \<or> k = 1" if "k < total_n nan_arg" for k
    using that by (auto simp: nan_arg_def)
  then show ?thesis
    unfolding no_finite_peer_def using nan_arg_corr by (auto simp: nan_arg_def)
qed

text \<open>
  In \<open>tie_arg\<close> the first peer has NaN and the second and third both have correlation 1:
  the thread keeps the second, \<open>ETH-USDT\<close>.
\<close>

theorem best_peer_selection_witness:
  "peer_corr tie_arg 1 = None \<and> peer_corr tie_arg 2 = Some 1 \<and> peer_corr tie_arg 3 = Some 1
 \<and> l_max_corr (corr_loop tie_arg) = 1
 \<and> l_max_sym (corr_loop tie_arg) = ''ETH-USDT''
 \<and> max_corr_symbol (instruments (compute_corr_thread tie_arg prev_state) 0) = ''ETH-USDT''"
proof -
  note t = best_peer_selection [of tie_arg prev_state]
  have idx: "index tie_arg = 0" and tot: "total_n tie_arg = 4"
    and g: "global_index (data tie_arg (index tie_arg)) = 0"
    and name: "take 15 (cd_instrument (data tie_arg 2)) = ''ETH-USDT''"
    by (simp_all add: tie_arg_def snapshot_entry_def)
  have fin: "\<not> no_finite_peer tie_arg (total_n tie_arg)"
  proof
    assume "no_finite_peer tie_arg (total_n tie_arg)"
    then have "peer_corr tie_arg 2 = None"
      by (simp add: no_finite_peer_def idx tot)
    with tie_arg_corrs(2) show False by simp
  qed
  with t obtain j where b: "best_peer tie_arg 4 j (l_max_corr (corr_loop tie_arg))"
    and s: "l_max_sym (corr_loop tie_arg) = take 15 (cd_instrument (data tie_arg j))"
    unfolding tot by blast
  from b have j: "j < 4" "j \<noteq> 0" and c: "peer_corr tie_arg j = Some (l_max_corr (corr_loop tie_arg))"
    and first: "\<forall>k<j. k \<noteq> 0 \<longrightarrow>
       (case peer_corr tie_arg k of None \<Rightarrow> True | Some r' \<Rightarrow> r' < l_max_corr (corr_loop tie_arg))"
    by (simp_all add: best_peer_def idx)
  from j have "j = 1 \<or> j = 2 \<or> j = 3" by linarith
  then have j2: "j = 2"
  proof (elim disjE)
    assume "j = 1"
    with c tie_arg_corrs(1) show ?thesis by simp
  next
    assume "j = 2"
    then show ?thesis .
  next
    assume j3: "j = 3"
    with c tie_arg_corrs(3) have m: "l_max_corr (corr_loop tie_arg) = 1" by simp
    from first j3 have "case peer_corr tie_arg 2 of None \<Rightarrow> True
       | Some r' \<Rightarrow> r' < l_max_corr (corr_loop tie_arg)"
      by simp
    with m tie_arg_corrs(2) show ?thesis by simp
  qed
  from c j2 tie_arg_corrs(2) have m: "l_max_corr (corr_loop tie_arg) = 1" by simp
  from s j2 name have sym: "l_max_sym (corr_loop tie_arg) = ''ETH-USDT''" by simp
  from t have "max_corr_symbol (instruments (compute_corr_thread tie_arg prev_state)
      (global_index (data tie_arg (index tie_arg)))) = l_max_sym (corr_loop tie_arg)"
    by blast
  then have "max_corr_symbol (instruments (compute_corr_thread tie_arg prev_state) 0) = ''ETH-USDT''"
    unfolding g sym .
  with tie_arg_corrs m sym show ?thesis by simp
qed

text \<open>
  In \<open>nan_arg\<close> the only peer has NaN: the thread stores \<open>N/A\<close>, -2, the cycle time 540
  and the time 0.
\<close>

theorem all_nan_resets_best_peer_witness:
  "no_finite_peer nan_arg (total_n nan_arg)
 \<and> max_corr_symbol (instruments (compute_corr_thread nan_arg prev_state) 0) = ''N/A''
 \<and> max_corr (instruments (compute_corr_thread nan_arg prev_state) 0) = - 2
 \<and> max_corr_time (instruments (compute_corr_thread nan_arg prev_state) 0) = 540
 \<and> max_corr_ma_time (instruments (compute_corr_thread nan_arg prev_state) 0) = 0"
proof -
  have g: "global_index (data nan_arg (index nan_arg)) = 0"
    and c: "current_time nan_arg = 540"
    by (simp_all add: nan_arg_def snapshot_entry_def)
  note t = all_nan_resets_best_peer [of nan_arg prev_state, unfolded g c]
  from t have "max_corr_time (instruments (compute_corr_thread nan_arg prev_state) 0) = 540"
    by blast
  moreover from t nan_arg_no_finite_peer
  have "max_corr_symbol (instruments (compute_corr_thread nan_arg prev_state) 0) = ''N/A''
     \<and> max_corr (instruments (compute_corr_thread nan_arg prev_state) 0) = - 2
     \<and> max_corr_ma_time (instruments (compute_corr_thread nan_arg prev_state) 0) = 0"
    by blast
  ultimately show ?thesis
    using nan_arg_no_finite_peer by blast
qed

text \<open>
  Claim C1, as stated, fails: in \<open>prev_state\<close> the instrument holds the best peer
  \<open>ETH-USDT\<close> with correlation 0.5, computed at 480 from the entry of time 60; after a
  cycle in which its only peer has NaN it holds \<open>N/A\<close>, -2, 540 and 0.
\<close>

theorem best_peer_not_kept_counterexample:
  "index nan_arg = 0 \<and> total_n nan_arg = 2 \<and> peer_corr nan_arg 1 = None
 \<and> global_index (data nan_arg (index nan_arg)) = 0
 \<and> max_corr_symbol (instruments prev_state 0) = ''ETH-USDT''
 \<and> max_corr (instruments prev_state 0) = 1 / 2
 \<and> max_corr_time (instruments prev_state 0) = 480
 \<and> max_corr_ma_time (instruments prev_state 0) = 60
 \<and> max_corr_symbol (instruments (compute_corr_thread nan_arg prev_state) 0) = ''N/A''
 \<and> max_corr (instruments (compute_corr_thread nan_arg prev_state) 0) = - 2
 \<and> max_corr_time (instruments (compute_corr_thread nan_arg prev_state) 0) = 540
 \<and> max_corr_ma_time (instruments (compute_corr_thread nan_arg prev_state) 0) = 0"
proof -
  have g: "global_index (data nan_arg (index nan_arg)) = 0"
    and c: "current_time nan_arg = 540"
    and i: "index nan_arg = 0" "total_n nan_arg = 2"
    by (simp_all add: nan_arg_def snapshot_entry_def)
  have l: "corr_loop nan_arg = corr_locals_init"
    using nan_arg_no_finite_peer by (rule all_nan_loop)
  have p: "max_corr_symbol (instruments prev_state 0) = ''ETH-USDT''"
    "max_corr (instruments prev_state 0) = 1 / 2"
    "max_corr_time (instruments prev_state 0) = 480"
    "max_corr_ma_time (instruments prev_state 0) = 60"
    by (simp_all add: prev_state_def)
  show ?thesis
    using compute_corr_thread_result [of nan_arg prev_state] nan_arg_corr p i
    unfolding g c l by (simp add: corr_locals_init_def)
qed

subsection \<open>The timing of the cycles\<close>

lemma cycle_timing_fields:
  "scheduled (cycle_timing t) = of_int \<lfloor>t / 60\<rfloor> * 60"
  "time_diff (cycle_timing t) = t - of_int \<lfloor>t / 60\<rfloor> * 60"
  "next_minute (cycle_timing t) = of_int \<lceil>t / 60\<rceil> * 60"
  "sleep_duration (cycle_timing t) = of_int \<lceil>t / 60\<rceil> * 60 - t"
  "sleep_tv_sec (cycle_timing t) = c_trunc (of_int \<lceil>t / 60\<rceil> * 60 - t)"
  "sleep_tv_nsec (cycle_timing t) =
     c_trunc ((of_int \<lceil>t / 60\<rceil> * 60 - t - of_int (c_trunc (of_int \<lceil>t / 60\<rceil> * 60 - t)))
              * 1000000000)"
  by (simp_all add: cycle_timing_def Let_def)

lemma drift_bounds:
  "0 \<le> time_diff (cycle_timing t)" "time_diff (cycle_timing t) < 60"
proof -
  have "of_int \<lfloor>t / 60\<rfloor> \<le> t / 60" "t / 60 < of_int \<lfloor>t / 60\<rfloor> + 1"
    by linarith+
  then show "0 \<le> time_diff (cycle_timing t)" "time_diff (cycle_timing t) < 60"
    by (simp_all add: cycle_timing_fields field_simps)
qed

lemma sleep_bounds:
  "0 \<le> sleep_duration (cycle_timing t)" "sleep_duration (cycle_timing t) < 60"
proof -
  have "t \<le> of_int \<lceil>t / 60\<rceil> * 60" "of_int \<lceil>t / 60\<rceil> * 60 < t + 60"
    by linarith+
  then show "0 \<le> sleep_duration (cycle_timing t)" "sleep_duration (cycle_timing t) < 60"
    unfolding cycle_timing_fields by linarith+
qed

lemma sleep_request:
  "of_int (sleep_tv_sec (cycle_timing t)) + of_int (sleep_tv_nsec (cycle_timing t)) / 1000000000
     \<le> sleep_duration (cycle_timing t)"
  "sleep_duration (cycle_timing t) <
     of_int (sleep_tv_sec (cycle_timing t))
       + (of_int (sleep_tv_nsec (cycle_timing t)) + 1) / 1000000000"
proof -
  define d where "d = sleep_duration (cycle_timing t)"
  have d0: "0 \<le> d" unfolding d_def by (rule sleep_bounds)
  have sec: "sleep_tv_sec (cycle_timing t) = \<lfloor>d\<rfloor>"
    using d0 by (simp add: cycle_timing_fields d_def c_trunc_def)
  have f0: "0 \<le> (d - of_int \<lfloor>d\<rfloor>) * 1000000000"
    by (simp add: zero_le_mult_iff)
  have nsec: "sleep_tv_nsec (cycle_timing t) = \<lfloor>(d - of_int \<lfloor>d\<rfloor>) * 1000000000\<rfloor>"
    using f0 d0 by (simp add: cycle_timing_fields d_def c_trunc_def)
  have "of_int \<lfloor>(d - of_int \<lfloor>d\<rfloor>) * 1000000000\<rfloor> \<le> (d - of_int \<lfloor>d\<rfloor>) * 1000000000"
    "(d - of_int \<lfloor>d\<rfloor>) * 1000000000 < of_int \<lfloor>(d - of_int \<lfloor>d\<rfloor>) * 1000000000\<rfloor> + 1"
    by linarith+
  then show "of_int (sleep_tv_sec (cycle_timing t))
       + of_int (sleep_tv_nsec (cycle_timing t)) / 1000000000 \<le> sleep_duration (cycle_timing t)"
    "sleep_duration (cycle_timing t) < of_int (sleep_tv_sec (cycle_timing t))
       + (of_int (sleep_tv_nsec (cycle_timing t)) + 1) / 1000000000"
    unfolding sec nsec d_def [symmetric] by (simp_all add: field_simps)
qed

text \<open>A reading \<open>d\<close> after a minute boundary, with \<open>0 < d \<le> 60\<close>, targets the next boundary.\<close>

lemma next_minute_after_boundary:
  assumes "0 < d" "d \<le> 60"
  shows "next_minute (cycle_timing (of_int k * 60 + d)) = of_int (k + 1) * 60"
proof -
  have "\<lceil>(of_int k * 60 + d) / 60\<rceil> = k + 1"
    using assms by (intro ceiling_unique) (simp_all add: field_simps)
  then show ?thesis by (simp add: cycle_timing_fields)
qed

lemma time_diff_after_boundary:
  assumes "0 \<le> d" "d < 60"
  shows "time_diff (cycle_timing (of_int k * 60 + d)) = d"
proof -
  have "\<lfloor>(of_int k * 60 + d) / 60\<rfloor> = k"
    using assms by (intro floor_unique) (simp_all add: field_simps)
  then show ?thesis by (simp add: cycle_timing_fields)
qed

lemma wake_time_targets:
  assumes "\<forall>n. 0 < late n \<and> late n < 60"
  shows "next_minute (cycle_timing (wake_time late t0 n)) =
           next_minute (cycle_timing t0) + 60 * real n"
proof (induction n)
  case 0
  show ?case by simp
next
  case (Suc n)
  define k where "k = \<lceil>t0 / 60\<rceil> + int n"
  have T: "next_minute (cycle_timing (wake_time late t0 n)) = of_int k * 60"
    unfolding Suc k_def by (simp add: cycle_timing_fields)
  from assms have l: "0 < late n" "late n \<le> 60" by (simp_all add: less_imp_le)
  have "next_minute (cycle_timing (wake_time late t0 (Suc n))) = of_int (k + 1) * 60"
    using next_minute_after_boundary [OF l, of k] by (simp add: T)
  then show ?case
    by (simp add: k_def cycle_timing_fields algebra_simps)
qed

lemma wake_time_drift:
  assumes "\<forall>n. 0 < late n \<and> late n < 60"
  shows "time_diff (cycle_timing (wake_time late t0 (Suc n))) = late n"
proof -
  define k where "k = \<lceil>t0 / 60\<rceil> + int n"
  have T: "next_minute (cycle_timing (wake_time late t0 n)) = of_int k * 60"
    unfolding wake_time_targets [OF assms] k_def by (simp add: cycle_timing_fields)
  from assms have l: "0 \<le> late n" "late n < 60" by (simp_all add: less_imp_le)
  show ?thesis
    using time_diff_after_boundary [OF l, of k] by (simp add: T)
qed

text \<open>
  Claim C5. In a cycle whose clock reading is \<open>t0\<close> the recorded drift is
  \<open>t0 - floor (t0 / 60) * 60\<close>, the sleep target is \<open>ceil (t0 / 60) * 60\<close> and the sleep
  lasts the difference of the target and \<open>t0\<close> (requested in whole nanoseconds, so up to one
  nanosecond less); both the drift and the sleep lie in \<open>[0, 60)\<close>. The target depends on
  the clock reading alone: when every cycle reaches the top of the loop late, by more than 0
  and less than 60 seconds after its target, the target of cycle \<open>n\<close> is the first target
  plus \<open>60 * n\<close> and the drift recorded in cycle \<open>n + 1\<close> is the lateness of cycle \<open>n\<close>
  alone. For the reading 61.2 the drift is 1.2 and the target is 120.
\<close>

theorem scheduler_timing:
  "time_diff (cycle_timing t0) = t0 - of_int \<lfloor>t0 / 60\<rfloor> * 60
 \<and> next_minute (cycle_timing t0) = of_int \<lceil>t0 / 60\<rceil> * 60
 \<and> sleep_duration (cycle_timing t0) = of_int \<lceil>t0 / 60\<rceil> * 60 - t0
 \<and> 0 \<le> time_diff (cycle_timing t0) \<and> time_diff (cycle_timing t0) < 60
 \<and> 0 \<le> sleep_duration (cycle_timing t0) \<and> sleep_duration (cycle_timing t0) < 60
 \<and> of_int (sleep_tv_sec (cycle_timing t0)) + of_int (sleep_tv_nsec (cycle_timing t0)) / 1000000000
      \<le> sleep_duration (cycle_timing t0)
 \<and> sleep_duration (cycle_timing t0) <
      of_int (sleep_tv_sec (cycle_timing t0))
        + (of_int (sleep_tv_nsec (cycle_timing t0)) + 1) / 1000000000
 \<and> ((\<forall>n. 0 < late n \<and> late n < 60) \<longrightarrow>
       next_minute (cycle_timing (wake_time late t0 n)) = next_minute (cycle_timing t0) + 60 * real n
     \<and> time_diff (cycle_timing (wake_time late t0 (Suc n))) = late n)
 \<and> time_diff (cycle_timing (612 / 10)) = 12 / 10
 \<and> next_minute (cycle_timing (612 / 10)) = 120"
proof -
  have a: "time_diff (cycle_timing (612 / 10)) = 12 / 10"
    using time_diff_after_boundary [of "12 / 10" 1] by simp
  have b: "next_minute (cycle_timing (612 / 10)) = 120"
    using next_minute_after_boundary [of "12 / 10" 1] by simp
  show ?thesis
    using drift_bounds [of t0] sleep_bounds [of t0] sleep_request [of t0] a b
      wake_time_targets [of late t0 n] wake_time_drift [of late t0 n]
    by (simp add: cycle_timing_fields)
qed

text \<open>
  A first reading of 61.2 and every cycle 1.2 seconds late: the first target is 120, the
  sleep lasts 58.8 seconds, the target of cycle 3 is 300 and the drift recorded in cycle 4
  is 1.2.
\<close>

theorem scheduler_timing_witness:
  "(\<forall>n. 0 < (\<lambda>_. 6 / 5 :: real) n \<and> (\<lambda>_. 6 / 5 :: real) n < 60)
 \<and> time_diff (cycle_timing (306 / 5)) = 6 / 5
 \<and> next_minute (cycle_timing (306 / 5)) = 120
 \<and> sleep_duration (cycle_timing (306 / 5)) = 294 / 5
 \<and> next_minute (cycle_timing (wake_time (\<lambda>_. 6 / 5) (306 / 5) 3)) = 300
 \<and> time_diff (cycle_timing (wake_time (\<lambda>_. 6 / 5) (306 / 5) 4)) = 6 / 5"
proof -
  have l: "\<forall>n. 0 < (\<lambda>_. 6 / 5 :: real) n \<and> (\<lambda>_. 6 / 5 :: real) n < 60" by simp
  note t = scheduler_timing [of "306 / 5" "\<lambda>_. 6 / 5" 3]
  from t have nm: "next_minute (cycle_timing (306 / 5)) = 120" by simp
  from t have sd: "sleep_duration (cycle_timing (306 / 5)) = of_int \<lceil>(306 / 5 :: real) / 60\<rceil> * 60 - 306 / 5"
    by blast
  from t have nm': "next_minute (cycle_timing (306 / 5)) = of_int \<lceil>(306 / 5 :: real) / 60\<rceil> * 60"
    by blast
  have sd': "sleep_duration (cycle_timing (306 / 5)) = 294 / 5"
    using sd nm nm' by simp
  from t have td: "time_diff (cycle_timing (306 / 5)) = 6 / 5" by simp
  from t l have "next_minute (cycle_timing (wake_time (\<lambda>_. 6 / 5) (306 / 5) 3)) =
      next_minute (cycle_timing (306 / 5)) + 60 * real 3"
    and d4: "time_diff (cycle_timing (wake_time (\<lambda>_. 6 / 5) (306 / 5) (Suc 3))) = 6 / 5"
    by blast+
  then have w3: "next_minute (cycle_timing (wake_time (\<lambda>_. 6 / 5) (306 / 5) 3)) = 300"
    using nm by simp
  have s4: "Suc 3 = 4" by simp
  show ?thesis
    using l td nm sd' w3 d4 [unfolded s4] by blast
qed

end
